theory Spec2Isabelle
  imports Complex_Main "HOL-Library.Sublist"
begin

section \<open>The model\<close>

subsection \<open>Floating-point numbers\<close>

text \<open>
  A Python \<^verbatim>\<open>float\<close> is an IEEE 754 double: a finite value, an infinity or a nan (the two
  zeros are not told apart). The result of an arithmetic operation is its exact value
  rounded to the nearest double, ties to the even significand; a double has 53 significant
  bits and its exponent is at least -1022, so the last place of a value \<open>x\<close> is
  \<open>2 powi (max \<lfloor>log 2 \<bar>x\<bar>\<rfloor> (-1022) - 52)\<close>. A result beyond the largest double is an
  infinity.
\<close>

datatype pyfloat = Finite real | PosInf | NegInf | NaN

definition round_even :: "real \<Rightarrow> int" where
  "round_even y =
     (let f = \<lfloor>y\<rfloor> in
      if y - of_int f < 1 / 2 then f
      else if 1 / 2 < y - of_int f then f + 1
      else if even f then f else f + 1)"

definition ulp :: "real \<Rightarrow> real" where
  "ulp x = 2 powi (max \<lfloor>log 2 \<bar>x\<bar>\<rfloor> (- 1022) - 52)"

definition round_double :: "real \<Rightarrow> real" where
  "round_double x =
     (if x = 0 then 0 else sgn x * (of_int (round_even (\<bar>x\<bar> / ulp x)) * ulp x))"

definition DBL_MAX :: real where
  "DBL_MAX = (2 ^ 53 - 1) * 2 ^ 971"

definition to_float :: "real \<Rightarrow> pyfloat" where
  "to_float x =
     (let r = round_double x in
      if DBL_MAX < r then PosInf else if r < - DBL_MAX then NegInf else Finite r)"

text \<open>
  The operators \<^verbatim>\<open>-x\<close>, \<^verbatim>\<open>abs(x)\<close>, \<^verbatim>\<open>x + y\<close>, \<^verbatim>\<open>x - y\<close>, \<^verbatim>\<open>x * y\<close> and \<^verbatim>\<open>x < y\<close> of
  \<^verbatim>\<open>float\<close>, with the IEEE rules for infinities and nan.
\<close>

fun fneg :: "pyfloat \<Rightarrow> pyfloat" where
  "fneg (Finite x) = Finite (- x)"
| "fneg PosInf = NegInf"
| "fneg NegInf = PosInf"
| "fneg NaN = NaN"

fun fabs :: "pyfloat \<Rightarrow> pyfloat" where
  "fabs (Finite x) = Finite \<bar>x\<bar>"
| "fabs PosInf = PosInf"
| "fabs NegInf = PosInf"
| "fabs NaN = NaN"

fun fadd :: "pyfloat \<Rightarrow> pyfloat \<Rightarrow> pyfloat" where
  "fadd (Finite x) (Finite y) = to_float (x + y)"
| "fadd NaN b = NaN"
| "fadd a NaN = NaN"
| "fadd PosInf NegInf = NaN"
| "fadd NegInf PosInf = NaN"
| "fadd PosInf b = PosInf"
| "fadd NegInf b = NegInf"
| "fadd a PosInf = PosInf"
| "fadd a NegInf = NegInf"

definition fsub :: "pyfloat \<Rightarrow> pyfloat \<Rightarrow> pyfloat" where
  "fsub a b = fadd a (fneg b)"

fun negative :: "pyfloat \<Rightarrow> bool" where
  "negative (Finite x) = (x < 0)"
| "negative NegInf = True"
| "negative a = False"

fun fmul :: "pyfloat \<Rightarrow> pyfloat \<Rightarrow> pyfloat" where
  "fmul (Finite x) (Finite y) = to_float (x * y)"
| "fmul a b =
     (if a = NaN \<or> b = NaN \<or> a = Finite 0 \<or> b = Finite 0 then NaN
      else if negative a = negative b then PosInf else NegInf)"

fun py_lt :: "pyfloat \<Rightarrow> pyfloat \<Rightarrow> bool" where
  "py_lt (Finite x) (Finite y) = (x < y)"
| "py_lt NaN b = False"
| "py_lt a NaN = False"
| "py_lt a NegInf = False"
| "py_lt PosInf b = False"
| "py_lt NegInf b = True"
| "py_lt a PosInf = True"

text \<open>
  The builtins \<^verbatim>\<open>min(a, b)\<close> and \<^verbatim>\<open>max(a, b)\<close> keep \<^verbatim>\<open>a\<close> unless \<^verbatim>\<open>b < a\<close>
  (\<^verbatim>\<open>b > a\<close>). \<open>clamp01 a\<close> is \<^verbatim>\<open>max(0.0, min(1.0, a))\<close>, which is finite for every
  \<^verbatim>\<open>a\<close>.
\<close>

definition py_min :: "pyfloat \<Rightarrow> pyfloat \<Rightarrow> pyfloat" where
  "py_min a b = (if py_lt b a then b else a)"

definition py_max :: "pyfloat \<Rightarrow> pyfloat \<Rightarrow> pyfloat" where
  "py_max a b = (if py_lt a b then b else a)"

definition clamp01 :: "pyfloat \<Rightarrow> real" where
  "clamp01 a =
     (case py_max (Finite 0) (py_min (Finite 1) a) of
        Finite r \<Rightarrow> r
      | other \<Rightarrow> 0)"

subsection \<open>Temperature shaper\<close>

text \<open>
  The exceptions that occur: those of \<^verbatim>\<open>requests\<close> and \<^verbatim>\<open>json\<close>, and the builtin
  ones raised by conversions, attribute access, dictionary lookup and float arithmetic.
\<close>

datatype exn = RequestException | JSONDecodeError | ValueError | AttributeError | TypeError
  | KeyError | OverflowError | ZeroDivisionError

text \<open>
  \<^verbatim>\<open>x / y\<close> raises ZeroDivisionError for a zero divisor. \<^verbatim>\<open>x ** 2\<close> is defined by
  CPython for nan, the infinities, 0 and 1; otherwise it calls the C library's \<^verbatim>\<open>pow\<close> on
  the absolute value and raises OverflowError when the library returns an infinity.
  \<^verbatim>\<open>math.exp\<close> calls the C library's \<^verbatim>\<open>exp\<close> and raises OverflowError (ValueError)
  when a finite argument gives an infinity (a nan). The C library is not part of the
  repository and its results are not fixed by IEEE 754: \<open>libm_pow2 x\<close> stands for
  \<^verbatim>\<open>pow(x, 2.0)\<close> and \<open>libm_exp x\<close> for \<^verbatim>\<open>exp(x)\<close>.
\<close>

fun fdiv_ieee :: "pyfloat \<Rightarrow> pyfloat \<Rightarrow> pyfloat" where
  "fdiv_ieee (Finite x) (Finite y) = to_float (x / y)"
| "fdiv_ieee NaN b = NaN"
| "fdiv_ieee a NaN = NaN"
| "fdiv_ieee (Finite x) b = Finite 0"
| "fdiv_ieee a (Finite y) = (if negative a = (y < 0) then PosInf else NegInf)"
| "fdiv_ieee a b = NaN"

definition fdiv :: "pyfloat \<Rightarrow> pyfloat \<Rightarrow> exn + pyfloat" where
  "fdiv a b = (if b = Finite 0 then Inl ZeroDivisionError else Inr (fdiv_ieee a b))"

definition fpow2 :: "(real \<Rightarrow> pyfloat) \<Rightarrow> pyfloat \<Rightarrow> exn + pyfloat" where
  "fpow2 libm_pow2 a =
     (case a of
        NaN \<Rightarrow> Inr NaN
      | PosInf \<Rightarrow> Inr PosInf
      | NegInf \<Rightarrow> Inr PosInf
      | Finite x \<Rightarrow>
          if x = 0 then Inr (Finite 0)
          else if \<bar>x\<bar> = 1 then Inr (Finite 1)
          else (case libm_pow2 \<bar>x\<bar> of
                  Finite r \<Rightarrow> Inr (Finite r)
                | NaN \<Rightarrow> Inr NaN
                | other \<Rightarrow> Inl OverflowError))"

definition fexp :: "(real \<Rightarrow> pyfloat) \<Rightarrow> pyfloat \<Rightarrow> exn + pyfloat" where
  "fexp libm_exp a =
     (case a of
        NaN \<Rightarrow> Inr NaN
      | PosInf \<Rightarrow> Inr PosInf
      | NegInf \<Rightarrow> Inr (Finite 0)
      | Finite x \<Rightarrow>
          (case libm_exp x of
             Finite r \<Rightarrow> Inr (Finite r)
           | NaN \<Rightarrow> Inl ValueError
           | other \<Rightarrow> Inl OverflowError))"

text \<open>
  \<^verbatim>\<open>apply_gaussian_temperature\<close> is the same function in \<^verbatim>\<open>smart_router.py\<close> (lines
  102-131) and \<^verbatim>\<open>web_ui.py\<close> (lines 54-59). The literals \<^verbatim>\<open>0.7\<close> and \<^verbatim>\<open>0.15\<close> are the
  doubles nearest to 7/10 and 15/100. The locals \<^verbatim>\<open>gaussian_weight\<close> and
  \<^verbatim>\<open>adjusted_temp\<close> are kept as functions of the argument; the operands are evaluated from
  left to right, so an exception of the square of the distance comes first.
\<close>

definition TEMP_MEAN :: pyfloat where
  "TEMP_MEAN = to_float (7 / 10)"

definition TEMP_SIGMA :: pyfloat where
  "TEMP_SIGMA = to_float (15 / 100)"

definition gaussian_weight ::
  "(real \<Rightarrow> pyfloat) \<Rightarrow> (real \<Rightarrow> pyfloat) \<Rightarrow> pyfloat \<Rightarrow> exn + pyfloat"
where
  "gaussian_weight libm_pow2 libm_exp base_temp =
     (let distance_from_mean = fabs (fsub base_temp TEMP_MEAN) in
      case fpow2 libm_pow2 distance_from_mean of
        Inl e \<Rightarrow> Inl e
      | Inr square \<Rightarrow>
          (case fpow2 libm_pow2 TEMP_SIGMA of
             Inl e \<Rightarrow> Inl e
           | Inr sigma_square \<Rightarrow>
               (case fdiv (fneg square) (fmul (Finite 2) sigma_square) of
                  Inl e \<Rightarrow> Inl e
                | Inr exponent \<Rightarrow> fexp libm_exp exponent)))"

definition adjusted_temp ::
  "(real \<Rightarrow> pyfloat) \<Rightarrow> (real \<Rightarrow> pyfloat) \<Rightarrow> pyfloat \<Rightarrow> exn + pyfloat"
where
  "adjusted_temp libm_pow2 libm_exp base_temp =
     (case gaussian_weight libm_pow2 libm_exp base_temp of
        Inl e \<Rightarrow> Inl e
      | Inr w \<Rightarrow>
          Inr (fadd (fmul base_temp w) (fmul TEMP_MEAN (fsub (Finite 1) w))))"

definition apply_gaussian_temperature ::
  "(real \<Rightarrow> pyfloat) \<Rightarrow> (real \<Rightarrow> pyfloat) \<Rightarrow> pyfloat \<Rightarrow> exn + real"
where
  "apply_gaussian_temperature libm_pow2 libm_exp base_temp =
     (case adjusted_temp libm_pow2 libm_exp base_temp of
        Inl e \<Rightarrow> Inl e
      | Inr a \<Rightarrow> Inr (clamp01 a))"

subsection \<open>Strings, regular expressions and the rule-based classifier\<close>

text \<open>
  A Python \<^verbatim>\<open>str\<close> is a sequence of code points. The model covers the strings whose code
  points are below 256 (Latin-1), one \<^typ>\<open>char\<close> per code point. On these,
  \<^verbatim>\<open>str.isspace\<close> holds for 9-13, 28-32, 133 and 160, and \<^verbatim>\<open>str.lower\<close> adds 32 to
  A-Z and to 192-222 except 215.
\<close>

definition isspace :: "char \<Rightarrow> bool" where
  "isspace c = (let n = (of_char c :: nat)
                in (9 \<le> n \<and> n \<le> 13) \<or> (28 \<le> n \<and> n \<le> 32) \<or> n = 133 \<or> n = 160)"

definition lower_char :: "char \<Rightarrow> char" where
  "lower_char c = (let n = (of_char c :: nat)
                   in if (65 \<le> n \<and> n \<le> 90) \<or> (192 \<le> n \<and> n \<le> 222 \<and> n \<noteq> 215)
                      then char_of (n + 32) else c)"

text \<open>\<^verbatim>\<open>s.lower()\<close>, \<^verbatim>\<open>s.strip()\<close>, \<^verbatim>\<open>s.split()\<close>, \<^verbatim>\<open>kw in s\<close> and \<^verbatim>\<open>s.count(c)\<close>.\<close>

definition lower :: "string \<Rightarrow> string" where
  "lower s = map lower_char s"

definition strip :: "string \<Rightarrow> string" where
  "strip s = rev (dropWhile isspace (rev (dropWhile isspace s)))"

fun split_acc :: "string \<Rightarrow> string \<Rightarrow> string list" where
  "split_acc cur [] = (if cur = [] then [] else [cur])"
| "split_acc cur (c # cs) =
     (if isspace c then (if cur = [] then split_acc [] cs else cur # split_acc [] cs)
      else split_acc (cur @ [c]) cs)"

definition split :: "string \<Rightarrow> string list" where
  "split s = split_acc [] s"

fun str_in :: "string \<Rightarrow> string \<Rightarrow> bool" where
  "str_in kw [] = (kw = [])"
| "str_in kw (c # cs) = (prefix kw (c # cs) \<or> str_in kw cs)"

definition count :: "string \<Rightarrow> char \<Rightarrow> nat" where
  "count s c = length (filter (\<lambda>x. x = c) s)"

text \<open>
  The fragment of Python's \<^verbatim>\<open>re\<close> that the sources use: literals, alternation,
  concatenation, \<^verbatim>\<open>r?\<close>, and greedy repetition \<^verbatim>\<open>c+\<close>, \<^verbatim>\<open>c{m,n}\<close> of a character class
  (\<^verbatim>\<open>.\<close>, \<^verbatim>\<open>\d\<close>, \<^verbatim>\<open>[^x]\<close>). \<open>rests ic r s\<close> lists, in the order a backtracking matcher
  tries them, what is left of \<open>s\<close> after \<open>r\<close> has matched a prefix; \<open>ic\<close> is
  \<^verbatim>\<open>re.IGNORECASE\<close>.
\<close>

datatype cclass = AnyChar | Digit | NotChar char

datatype regex =
    Lit string
  | Alt "regex list"
  | Cat "regex list"
  | Opt regex
  | Rep cclass nat "nat option"

definition newline :: char where
  "newline = CHR 0x0A"

fun in_class :: "cclass \<Rightarrow> char \<Rightarrow> bool" where
  "in_class AnyChar c = (c \<noteq> newline)"
| "in_class Digit c = (let n = (of_char c :: nat) in 48 \<le> n \<and> n \<le> 57)"
| "in_class (NotChar x) c = (c \<noteq> x)"

fun lit_rest :: "bool \<Rightarrow> string \<Rightarrow> string \<Rightarrow> string option" where
  "lit_rest ic [] s = Some s"
| "lit_rest ic (p # ps) [] = None"
| "lit_rest ic (p # ps) (c # cs) =
     (if (if ic then lower_char c = lower_char p else c = p) then lit_rest ic ps cs else None)"

fun rep_rests :: "cclass \<Rightarrow> nat \<Rightarrow> string \<Rightarrow> (nat \<times> string) list" where
  "rep_rests cl n [] = [(n, [])]"
| "rep_rests cl n (c # cs) =
     (if in_class cl c then rep_rests cl (Suc n) cs @ [(n, c # cs)] else [(n, c # cs)])"

fun rests :: "bool \<Rightarrow> regex \<Rightarrow> string \<Rightarrow> string list" where
  "rests ic (Lit l) s = (case lit_rest ic l s of None \<Rightarrow> [] | Some r \<Rightarrow> [r])"
| "rests ic (Alt rs) s = concat (map (\<lambda>r. rests ic r s) rs)"
| "rests ic (Cat []) s = [s]"
| "rests ic (Cat (r # rs)) s = concat (map (rests ic (Cat rs)) (rests ic r s))"
| "rests ic (Opt r) s = rests ic r s @ [s]"
| "rests ic (Rep cl lo hi) s =
     map snd (filter (\<lambda>(k, _). lo \<le> k \<and> (case hi of None \<Rightarrow> True | Some h \<Rightarrow> k \<le> h))
                     (rep_rests cl 0 s))"

text \<open>
  \<^verbatim>\<open>re.match\<close> with a pattern \<^verbatim>\<open>^r$\<close>: the match starts at position 0 and \<^verbatim>\<open>$\<close>
  accepts the end of the string or the position before a final newline. \<^verbatim>\<open>re.search\<close>
  tries the start positions from left to right and returns the text of the first match.
\<close>

definition at_end :: "string \<Rightarrow> bool" where
  "at_end s = (s = [] \<or> s = [newline])"

definition re_match :: "bool \<Rightarrow> regex \<Rightarrow> string \<Rightarrow> bool" where
  "re_match ic r s = list_ex at_end (rests ic r s)"

fun re_search :: "bool \<Rightarrow> regex \<Rightarrow> string \<Rightarrow> string option" where
  "re_search ic r [] = (case rests ic r [] of [] \<Rightarrow> None | rest # _ \<Rightarrow> Some [])"
| "re_search ic r (c # cs) =
     (case rests ic r (c # cs) of
        [] \<Rightarrow> re_search ic r cs
      | rest # _ \<Rightarrow> Some (take (length (c # cs) - length rest) (c # cs)))"

text \<open>\<^verbatim>\<open>routing_client.py\<close>, lines 65-112: the keyword tables and \<^verbatim>\<open>SIMPLE_PATTERNS\<close>.\<close>

definition STRONG_KEYWORDS :: "string list" where
  "STRONG_KEYWORDS =
     [''explain in detail'', ''step by step'', ''comprehensive'', ''thorough'', ''deep dive'',
      ''advanced'', ''debug'', ''fix this code'', ''review my code'', ''optimize'',
      ''architecture'', ''design pattern'', ''algorithm'', ''prove'', ''derive'',
      ''mathematical'']"

definition NORMAL_KEYWORDS :: "string list" where
  "NORMAL_KEYWORDS =
     [''explain'', ''why'', ''how does'', ''compare'', ''analyze'', ''elaborate'', ''teach me'',
      ''help me understand'', ''what is the difference'', ''pros and cons'', ''advantages'',
      ''disadvantages'', ''example'', ''code'', ''write'', ''create'', ''implement'']"

definition SIMPLE_PATTERNS :: "regex list" where
  "SIMPLE_PATTERNS =
     [Cat [Alt [Lit ''hi'', Lit ''hello'', Lit ''hey'', Lit ''thanks'', Lit ''thank you'',
                Lit ''ok'', Lit ''okay'', Lit ''yes'', Lit ''no'', Lit ''bye'', Lit ''goodbye''],
           Opt (Lit ''.'')],
      Cat [Lit ''what '', Alt [Lit ''is'', Lit ''are''], Lit '' '', Rep AnyChar 1 (Some 30),
           Opt (Lit ''?'')],
      Cat [Alt [Lit ''list'', Lit ''name'', Lit ''give me''], Lit '' '', Rep Digit 1 None,
           Lit '' '', Rep AnyChar 1 None],
      Cat [Lit ''translate '', Rep AnyChar 1 None],
      Cat [Lit ''define '', Rep AnyChar 1 None]]"

text \<open>
  \<^verbatim>\<open>classify_complexity\<close>, lines 126-175. The three loops test the lower-cased,
  stripped prompt; the structural heuristics read the prompt as it was given.
\<close>

definition has_code :: "string \<Rightarrow> bool" where
  "has_code prompt =
     (str_in [CHR 0x60, CHR 0x60, CHR 0x60] prompt \<or> str_in ''def '' prompt
      \<or> str_in ''function '' prompt \<or> str_in ''class '' prompt)"

definition has_multiple_questions :: "string \<Rightarrow> bool" where
  "has_multiple_questions prompt = (count prompt (CHR ''?'') > 1)"

definition has_complex_code :: "string \<Rightarrow> bool" where
  "has_complex_code prompt = (count prompt newline > 5 \<and> has_code prompt)"

definition classify_complexity :: "string \<Rightarrow> string" where
  "classify_complexity prompt =
     (let prompt_lower = strip (lower prompt) in
      if list_ex (\<lambda>pattern. re_match True pattern prompt_lower) SIMPLE_PATTERNS then ''fast''
      else if list_ex (\<lambda>keyword. str_in keyword prompt_lower) STRONG_KEYWORDS then ''strong''
      else if list_ex (\<lambda>keyword. str_in keyword prompt_lower) NORMAL_KEYWORDS then ''normal''
      else
        let word_count = length (split prompt) in
        if has_complex_code prompt \<or> has_multiple_questions prompt then ''strong''
        else if has_code prompt then ''normal''
        else if word_count > 100 then ''strong''
        else if word_count > 30 then ''normal''
        else if word_count < 10 then ''fast''
        else ''normal'')"

subsection \<open>Sample queries\<close>

text \<open>
  Queries used as concrete inputs below: 150 one-letter words, a five-word sentence, and a
  greeting with capitals and blanks around it.
\<close>

definition long_query :: string where
  "long_query = concat (replicate 150 ''a '')"

definition short_query :: string where
  "short_query = ''the sky looks blue today''"

definition spaced_query :: string where
  "spaced_query = ''  Hello THERE  my Friend  ''"

subsection \<open>Model-assisted classification\<close>

text \<open>
  \<^verbatim>\<open>classify_with_ai\<close> of \<^verbatim>\<open>smart_router.py\<close> (lines 134-179) and of \<^verbatim>\<open>web_ui.py\<close>
  (lines 79-109). The two share the body of the \<^verbatim>\<open>try\<close> block and differ in the
  \<^verbatim>\<open>except\<close> clause and in the text of the fallback reason. What lies outside the
  repository is a parameter: the outcome of \<^verbatim>\<open>generate_simple\<close> (an exception or the value
  returned), \<^verbatim>\<open>json.loads\<close> (\<open>None\<close> is JSONDecodeError) and \<^verbatim>\<open>float\<close> on a string
  (\<open>None\<close> is ValueError). \<^verbatim>\<open>json.loads\<close> gives an \<^verbatim>\<open>int\<close> for an integer literal and
  a \<^verbatim>\<open>float\<close> for any other number; a JSON object is the list of its items. The
  temperature of a decision is the value of a finite double.
\<close>

datatype json =
    JNull
  | JBool bool
  | JInt int
  | JFloat pyfloat
  | JStr string
  | JArr "json list"
  | JObj "(string \<times> json) list"

record decision =
  difficulty :: string
  temperature :: real
  reason :: json

definition JSON_PATTERN :: regex where
  "JSON_PATTERN = Cat [Lit ''{'', Rep (NotChar (CHR ''}'')) 1 None, Lit ''}'']"

text \<open>
  \<^verbatim>\<open>parsed.get(k, default)\<close>, \<^verbatim>\<open>v.lower()\<close> (only a string has the method) and
  \<^verbatim>\<open>float(v)\<close>: a float is returned as it is, an \<^verbatim>\<open>int\<close> or a boolean is rounded to
  the nearest double (OverflowError when the integer is beyond the largest double), a string
  is parsed, anything else is a TypeError.
\<close>

definition dict_get :: "(string \<times> json) list \<Rightarrow> string \<Rightarrow> json \<Rightarrow> json" where
  "dict_get d k dflt = (case map_of d k of None \<Rightarrow> dflt | Some v \<Rightarrow> v)"

fun str_lower :: "json \<Rightarrow> exn + string" where
  "str_lower (JStr s) = Inr (lower s)"
| "str_lower v = Inl AttributeError"

fun py_float :: "(string \<Rightarrow> pyfloat option) \<Rightarrow> json \<Rightarrow> exn + pyfloat" where
  "py_float str_to_float (JFloat x) = Inr x"
| "py_float str_to_float (JInt n) =
     (case to_float (of_int n) of Finite r \<Rightarrow> Inr (Finite r) | other \<Rightarrow> Inl OverflowError)"
| "py_float str_to_float (JBool b) = Inr (Finite (if b then 1 else 0))"
| "py_float str_to_float (JStr s) =
     (case str_to_float s of None \<Rightarrow> Inl ValueError | Some x \<Rightarrow> Inr x)"
| "py_float str_to_float v = Inl TypeError"

definition classify_try_body ::
  "(string \<Rightarrow> json option) \<Rightarrow> (string \<Rightarrow> pyfloat option) \<Rightarrow> (real \<Rightarrow> pyfloat) \<Rightarrow>
   (real \<Rightarrow> pyfloat) \<Rightarrow> exn + json \<Rightarrow> exn + decision option"
where
  "classify_try_body json_loads str_to_float libm_pow2 libm_exp generate_simple =
     (case generate_simple of
        Inl e \<Rightarrow> Inl e
      | Inr (JStr result) \<Rightarrow>
          (case re_search False JSON_PATTERN result of
             None \<Rightarrow> Inr None
           | Some json_match \<Rightarrow>
               (case json_loads json_match of
                  None \<Rightarrow> Inl JSONDecodeError
                | Some (JObj parsed) \<Rightarrow>
                    (case str_lower (dict_get parsed ''difficulty'' (JStr ''normal'')) of
                       Inl e \<Rightarrow> Inl e
                     | Inr d \<Rightarrow>
                         (case py_float str_to_float
                                 (dict_get parsed ''temperature'' (JFloat (to_float (7 / 10)))) of
                            Inl e \<Rightarrow> Inl e
                          | Inr base_temperature \<Rightarrow>
                              (case apply_gaussian_temperature libm_pow2 libm_exp
                                      (Finite (clamp01 base_temperature)) of
                                 Inl e \<Rightarrow> Inl e
                               | Inr t \<Rightarrow>
                                   Inr (Some \<lparr>
                                     difficulty =
                                       (if d \<notin> set [''fast'', ''normal'', ''strong'']
                                        then ''normal'' else d),
                                     temperature = t,
                                     reason =
                                       dict_get parsed ''reason'' (JStr ''AI classification'')
                                   \<rparr>))))
                | Some other \<Rightarrow> Inl AttributeError))
      | Inr other \<Rightarrow> Inl TypeError)"

definition smart_router_fallback :: decision where
  "smart_router_fallback =
     \<lparr>difficulty = ''normal'', temperature = 7 / 10, reason = JStr ''Fallback classification''\<rparr>"

definition web_ui_fallback :: decision where
  "web_ui_fallback = \<lparr>difficulty = ''normal'', temperature = 7 / 10, reason = JStr ''Fallback''\<rparr>"

definition smart_router_classify_with_ai ::
  "(string \<Rightarrow> json option) \<Rightarrow> (string \<Rightarrow> pyfloat option) \<Rightarrow> (real \<Rightarrow> pyfloat) \<Rightarrow>
   (real \<Rightarrow> pyfloat) \<Rightarrow> exn + json \<Rightarrow> exn + decision"
where
  "smart_router_classify_with_ai json_loads str_to_float libm_pow2 libm_exp generate_simple =
     (case classify_try_body json_loads str_to_float libm_pow2 libm_exp generate_simple of
        Inr (Some d) \<Rightarrow> Inr d
      | Inr None \<Rightarrow> Inr smart_router_fallback
      | Inl e \<Rightarrow>
          (if e = JSONDecodeError \<or> e = RequestException \<or> e = ValueError
           then Inr smart_router_fallback else Inl e))"

definition web_ui_classify_with_ai ::
  "(string \<Rightarrow> json option) \<Rightarrow> (string \<Rightarrow> pyfloat option) \<Rightarrow> (real \<Rightarrow> pyfloat) \<Rightarrow>
   (real \<Rightarrow> pyfloat) \<Rightarrow> exn + json \<Rightarrow> exn + decision"
where
  "web_ui_classify_with_ai json_loads str_to_float libm_pow2 libm_exp generate_simple =
     (case classify_try_body json_loads str_to_float libm_pow2 libm_exp generate_simple of
        Inr (Some d) \<Rightarrow> Inr d
      | Inr None \<Rightarrow> Inr web_ui_fallback
      | Inl e \<Rightarrow> Inr web_ui_fallback)"

text \<open>
  The values of \<^verbatim>\<open>json.loads\<close> and of \<^verbatim>\<open>float\<close> on the sample texts used below.
\<close>

definition sample_json_loads :: "string \<Rightarrow> json option" where
  "sample_json_loads s =
     (if s = ''{\"difficulty\": 5}'' then Some (JObj [(''difficulty'', JInt 5)])
      else if s = ''{\"difficulty\": \"fast\", \"temperature\": null}''
      then Some (JObj [(''difficulty'', JStr ''fast''), (''temperature'', JNull)])
      else None)"

definition sample_str_to_float :: "string \<Rightarrow> pyfloat option" where
  "sample_str_to_float s = (if s = ''0.5'' then Some (Finite (1 / 2)) else None)"

subsection \<open>JSON extraction\<close>

text \<open>
  Modelled from the spec's words, for comparison with the code: a text is balanced when
  its braces are well nested, and \<open>spec_first_balanced\<close> returns the first substring that
  starts at an opening brace and ends where that brace is closed.
\<close>

fun spec_balanced :: "nat \<Rightarrow> string \<Rightarrow> bool" where
  "spec_balanced depth [] = (depth = 0)"
| "spec_balanced depth (c # cs) =
     (if c = CHR ''{'' then spec_balanced (Suc depth) cs
      else if c = CHR ''}'' then 0 < depth \<and> spec_balanced (depth - 1) cs
      else spec_balanced depth cs)"

fun spec_close :: "nat \<Rightarrow> string \<Rightarrow> string option" where
  "spec_close depth [] = None"
| "spec_close depth (c # cs) =
     (if c = CHR ''{'' then map_option (Cons c) (spec_close (Suc depth) cs)
      else if c = CHR ''}'' then
        (if depth \<le> 1 then Some [c] else map_option (Cons c) (spec_close (depth - 1) cs))
      else map_option (Cons c) (spec_close depth cs))"

fun spec_first_balanced :: "string \<Rightarrow> string option" where
  "spec_first_balanced [] = None"
| "spec_first_balanced (c # cs) =
     (if c = CHR ''{'' then
        (case spec_close 0 (c # cs) of Some m \<Rightarrow> Some m | None \<Rightarrow> spec_first_balanced cs)
      else spec_first_balanced cs)"

text \<open>An output of the router model with a nested object, and the prose around it.\<close>

definition nested_output :: string where
  "nested_output =
     ''Sure: {\"difficulty\": \"strong\", \"meta\": {\"k\": 1}, \"temperature\": 0.4} ok''"

subsection \<open>Sessions and routing\<close>

text \<open>
  The terminal clients keep three message lists and the pending forced tier as locals of
  \<^verbatim>\<open>main\<close> (\<^verbatim>\<open>smart_router.py\<close> lines 280-285, \<^verbatim>\<open>routing_client.py\<close> lines 258-269).
  \<^verbatim>\<open>smart_router.py\<close> adds \<^verbatim>\<open>fixed_temp\<close>; \<^verbatim>\<open>routing_client.py\<close> asks once for a
  temperature. A message is its role and its content.
\<close>

type_synonym message = "string \<times> string"

record session =
  messages_fast :: "message list"
  messages_normal :: "message list"
  messages_strong :: "message list"
  force_mode :: "string option"

record smart_router_session = session +
  fixed_temp :: "real option"

record routing_client_session = session +
  session_temperature :: real

text \<open>
  One pass of the \<^verbatim>\<open>while True\<close> loop ends in \<^verbatim>\<open>continue\<close> (or falls off the end of the
  body), in \<^verbatim>\<open>break\<close>, or in an exception that leaves \<^verbatim>\<open>main\<close>; each carries the
  state at that point.
\<close>

datatype 'a loop = Continue 'a | Break 'a | Raise exn 'a

text \<open>Python's truth value of \<^verbatim>\<open>force_mode\<close> (a string or \<^verbatim>\<open>None\<close>).\<close>

definition str_truthy :: "string option \<Rightarrow> bool" where
  "str_truthy v = (case v of None \<Rightarrow> False | Some s \<Rightarrow> s \<noteq> [])"

text \<open>
  The command chain of \<^verbatim>\<open>smart_router.main\<close>, lines 296-331; \<open>None\<close> when the input is
  not a command and goes on to routing. \<^verbatim>\<open>user_input\<close> is the line read, already stripped.
\<close>

definition smart_router_command ::
  "(string \<Rightarrow> pyfloat option) \<Rightarrow> string \<Rightarrow> smart_router_session \<Rightarrow>
   smart_router_session loop option"
where
  "smart_router_command str_to_float user_input st =
     (if user_input = [] then Some (Continue st)
      else if lower user_input = ''/bye'' then Some (Break st)
      else if lower user_input = ''/fast'' then Some (Continue (st\<lparr>force_mode := Some ''fast''\<rparr>))
      else if lower user_input = ''/normal''
        then Some (Continue (st\<lparr>force_mode := Some ''normal''\<rparr>))
      else if lower user_input = ''/strong''
        then Some (Continue (st\<lparr>force_mode := Some ''strong''\<rparr>))
      else if lower user_input = ''/auto''
        then Some (Continue (st\<lparr>force_mode := None, fixed_temp := None\<rparr>))
      else if prefix ''/temp '' (lower user_input) then
        (case split user_input of
           _ # x # _ \<Rightarrow>
             (case str_to_float x of
                Some t \<Rightarrow> Some (Continue (st\<lparr>fixed_temp := Some (clamp01 t)\<rparr>))
              | None \<Rightarrow> Some (Continue st))
         | _ \<Rightarrow> Some (Continue st))
      else if lower user_input = ''/models'' then Some (Continue st)
      else None)"

text \<open>
  Lines 333-348: the forced tier is used once and reset, otherwise the outcome of
  \<^verbatim>\<open>classify_with_ai\<close> is taken (an exception of it leaves \<^verbatim>\<open>main\<close>); then a fixed
  temperature, when there is one, replaces the temperature.
\<close>

definition smart_router_route ::
  "smart_router_session \<Rightarrow> exn + decision \<Rightarrow> exn + decision \<times> smart_router_session"
where
  "smart_router_route st classify_with_ai =
     (case (if str_truthy (force_mode st)
            then Inr (\<lparr>difficulty = the (force_mode st),
                        temperature = (case fixed_temp st of None \<Rightarrow> 7 / 10 | Some t \<Rightarrow> t),
                        reason = JStr ''Forced by user''\<rparr>,
                      st\<lparr>force_mode := None\<rparr>)
            else (case classify_with_ai of Inl e \<Rightarrow> Inl e | Inr c \<Rightarrow> Inr (c, st)))
      of Inl e \<Rightarrow> Inl e
       | Inr (classification, st') \<Rightarrow>
           Inr (case fixed_temp st' of
                  None \<Rightarrow> classification
                | Some t \<Rightarrow> classification\<lparr>temperature := t\<rparr>,
                st'))"

text \<open>
  The tier selects the list (\<^verbatim>\<open>fast\<close>, \<^verbatim>\<open>normal\<close>, anything else is strong). The user
  message is appended, then \<^verbatim>\<open>chat\<close> is called: its answer is appended, a
  \<^verbatim>\<open>requests.RequestException\<close> is caught and the last message popped, any other
  exception leaves \<^verbatim>\<open>main\<close>. The same code ends both terminal clients
  (\<^verbatim>\<open>smart_router.py\<close> lines 350-388, \<^verbatim>\<open>routing_client.py\<close> lines 320-348).
\<close>

definition update_messages ::
  "string \<Rightarrow> (message list \<Rightarrow> message list) \<Rightarrow> 'a session_scheme \<Rightarrow> 'a session_scheme"
where
  "update_messages tier f st =
     (if tier = ''fast'' then st\<lparr>messages_fast := f (messages_fast st)\<rparr>
      else if tier = ''normal'' then st\<lparr>messages_normal := f (messages_normal st)\<rparr>
      else st\<lparr>messages_strong := f (messages_strong st)\<rparr>)"

definition dispatch ::
  "string \<Rightarrow> string \<Rightarrow> exn + string \<Rightarrow> 'a session_scheme \<Rightarrow> 'a session_scheme loop"
where
  "dispatch tier user_input chat st =
     (let st1 = update_messages tier (\<lambda>messages. messages @ [(''user'', user_input)]) st in
      case chat of
        Inr ai_response \<Rightarrow>
          Continue (update_messages tier
                      (\<lambda>messages. messages @ [(''assistant'', ai_response)]) st1)
      | Inl e \<Rightarrow>
          if e = RequestException then Continue (update_messages tier butlast st1)
          else Raise e st1)"

definition smart_router_turn ::
  "(string \<Rightarrow> pyfloat option) \<Rightarrow> exn + decision \<Rightarrow> exn + string \<Rightarrow> string \<Rightarrow>
   smart_router_session \<Rightarrow> smart_router_session loop"
where
  "smart_router_turn str_to_float classify_with_ai chat user_input st =
     (case smart_router_command str_to_float user_input st of
        Some r \<Rightarrow> r
      | None \<Rightarrow>
          (case smart_router_route st classify_with_ai of
             Inl e \<Rightarrow> Raise e st
           | Inr (classification, st') \<Rightarrow>
               dispatch (difficulty classification) user_input chat st'))"

text \<open>\<^verbatim>\<open>routing_client.main\<close>: the commands (lines 280-311) and the choice of the tier
  (lines 313-318), by the forced tier or by \<^verbatim>\<open>classify_complexity\<close>.\<close>

definition routing_client_command ::
  "string \<Rightarrow> routing_client_session \<Rightarrow> routing_client_session loop option"
where
  "routing_client_command user_input st =
     (if user_input = [] then Some (Continue st)
      else if lower user_input = ''/bye'' then Some (Break st)
      else if lower user_input = ''/fast'' then Some (Continue (st\<lparr>force_mode := Some ''fast''\<rparr>))
      else if lower user_input = ''/normal''
        then Some (Continue (st\<lparr>force_mode := Some ''normal''\<rparr>))
      else if lower user_input = ''/strong''
        then Some (Continue (st\<lparr>force_mode := Some ''strong''\<rparr>))
      else if lower user_input = ''/auto'' then Some (Continue (st\<lparr>force_mode := None\<rparr>))
      else if lower user_input = ''/status'' then Some (Continue st)
      else if lower user_input = ''/models'' then Some (Continue st)
      else None)"

definition routing_client_route ::
  "routing_client_session \<Rightarrow> string \<Rightarrow> string \<times> routing_client_session"
where
  "routing_client_route st user_input =
     (if str_truthy (force_mode st) then (the (force_mode st), st\<lparr>force_mode := None\<rparr>)
      else (classify_complexity user_input, st))"

definition routing_client_turn ::
  "exn + string \<Rightarrow> string \<Rightarrow> routing_client_session \<Rightarrow> routing_client_session loop"
where
  "routing_client_turn chat user_input st =
     (case routing_client_command user_input st of
        Some r \<Rightarrow> r
      | None \<Rightarrow>
          (case routing_client_route st user_input of
             (model_choice, st') \<Rightarrow> dispatch model_choice user_input chat st'))"

text \<open>
  \<^verbatim>\<open>web_ui.py\<close>. \<^verbatim>\<open>respond\<close> (lines 149-192) receives the forced tier and the fixed
  temperature as arguments on every call. \<^verbatim>\<open>fixed_temp if fixed_temp else ...\<close> tests the
  truth value of a float or \<^verbatim>\<open>None\<close>. The histories are a dictionary from tier to message
  list; an exception of the chat stream is caught and the history is left as it is.
\<close>

definition float_truthy :: "real option \<Rightarrow> bool" where
  "float_truthy v = (case v of None \<Rightarrow> False | Some t \<Rightarrow> t \<noteq> 0)"

definition web_ui_decision :: "string \<Rightarrow> real option \<Rightarrow> decision \<Rightarrow> decision" where
  "web_ui_decision force_mode_arg fixed_temp_arg classification =
     (if force_mode_arg \<noteq> ''Auto''
      then \<lparr>difficulty = lower force_mode_arg,
            temperature = (if float_truthy fixed_temp_arg then the fixed_temp_arg else 7 / 10),
            reason = JStr (''Forced: '' @ force_mode_arg)\<rparr>
      else \<lparr>difficulty = difficulty classification,
            temperature = (if float_truthy fixed_temp_arg then the fixed_temp_arg
                           else temperature classification),
            reason = reason classification\<rparr>)"

definition respond ::
  "(string \<rightharpoonup> message list) \<Rightarrow> decision \<Rightarrow> exn + string \<Rightarrow> string \<Rightarrow> string \<Rightarrow> real option \<Rightarrow>
   exn + decision option \<times> (string \<rightharpoonup> message list)"
where
  "respond histories classification chat_stream message force_mode_arg fixed_temp_arg =
     (if strip message = [] then Inr (None, histories)
      else
        let d = web_ui_decision force_mode_arg fixed_temp_arg classification in
        case histories (difficulty d) of
          None \<Rightarrow> Inl KeyError
        | Some tier_history \<Rightarrow>
            (let tier_history1 = tier_history @ [(''user'', message)] in
             case chat_stream of
               Inr full_response \<Rightarrow>
                 Inr (Some d, histories(difficulty d \<mapsto>
                        tier_history1 @ [(''assistant'', full_response)]))
             | Inl e \<Rightarrow> Inr (Some d, histories(difficulty d \<mapsto> tier_history1))))"

text \<open>
  The page (lines 263-313): the radio button \<^verbatim>\<open>force_mode\<close> and the slider
  \<^verbatim>\<open>fixed_temp\<close> are inputs of \<^verbatim>\<open>respond\<close> on every submit and are not among its outputs,
  so a submit leaves them as the user set them.
\<close>

record web_ui_page =
  histories :: "string \<rightharpoonup> message list"
  force_mode_radio :: string
  fixed_temp_slider :: real

definition submit ::
  "web_ui_page \<Rightarrow> decision \<Rightarrow> exn + string \<Rightarrow> string \<Rightarrow> exn + decision option \<times> web_ui_page"
where
  "submit page classification chat_stream message =
     (case respond (histories page) classification chat_stream message
             (force_mode_radio page) (Some (fixed_temp_slider page)) of
        Inl e \<Rightarrow> Inl e
      | Inr (d, h) \<Rightarrow> Inr (d, page\<lparr>histories := h\<rparr>))"

text \<open>Start states: the empty lists of \<^verbatim>\<open>main\<close>, and the page as it is built.\<close>

definition smart_router_start :: smart_router_session where
  "smart_router_start =
     \<lparr>messages_fast = [], messages_normal = [], messages_strong = [], force_mode = None,
      fixed_temp = None\<rparr>"

definition routing_client_start :: routing_client_session where
  "routing_client_start =
     \<lparr>messages_fast = [], messages_normal = [], messages_strong = [], force_mode = None,
      session_temperature = 7 / 10\<rparr>"

definition web_ui_start :: web_ui_page where
  "web_ui_start =
     \<lparr>histories = [''fast'' \<mapsto> [], ''normal'' \<mapsto> [], ''strong'' \<mapsto> []],
      force_mode_radio = ''Auto'', fixed_temp_slider = 7 / 10\<rparr>"

definition quick_decision :: decision where
  "quick_decision = \<lparr>difficulty = ''fast'', temperature = 1 / 2, reason = JStr ''Simple greeting''\<rparr>"

text \<open>A page on which the user has selected the strong tier.\<close>

definition web_ui_forced :: web_ui_page where
  "web_ui_forced = web_ui_start\<lparr>force_mode_radio := ''Strong''\<rparr>"

section \<open>Properties\<close>

subsection \<open>Floating-point numbers: properties\<close>

lemma round_even_near: "\<bar>of_int (round_even y) - y\<bar> \<le> 1 / 2"
proof -
  have "of_int \<lfloor>y\<rfloor> \<le> y" "y < of_int \<lfloor>y\<rfloor> + 1" by linarith+
  then show ?thesis by (auto simp: round_even_def Let_def)
qed

lemma round_even_unique:
  assumes "\<bar>of_int n - y\<bar> < 1 / 2"
  shows "round_even y = n"
proof -
  have a: "\<bar>of_int (round_even y) - y\<bar> \<le> 1 / 2" by (rule round_even_near)
  have "\<bar>(of_int (round_even y) :: real) - of_int n\<bar> < 1" using a assms by linarith
  then have "\<bar>round_even y - n\<bar> < 1" by (metis of_int_abs of_int_diff of_int_less_1_iff)
  then show ?thesis by linarith
qed

lemma round_even_of_int [simp]: "round_even (of_int n) = n"
  by (rule round_even_unique) simp

lemma round_even_nonneg: "0 \<le> y \<Longrightarrow> 0 \<le> round_even y"
proof -
  assume "0 \<le> y"
  then have "0 \<le> \<lfloor>y\<rfloor>" by simp
  then show ?thesis by (auto simp: round_even_def Let_def)
qed

lemma ulp_pos: "0 < ulp x"
  by (simp add: ulp_def zero_less_power_int)

lemma ulp_minus [simp]: "ulp (- x) = ulp x"
  by (simp add: ulp_def)

lemma round_double_zero [simp]: "round_double 0 = 0"
  by (simp add: round_double_def)

lemma round_double_minus: "round_double (- x) = - round_double x"
  by (simp add: round_double_def sgn_minus)

lemma round_double_nonneg: "0 \<le> x \<Longrightarrow> 0 \<le> round_double x"
  using ulp_pos [of x] round_even_nonneg [of "\<bar>x\<bar> / ulp x"]
  by (auto simp: round_double_def sgn_if)

lemma round_double_nonpos: "x \<le> 0 \<Longrightarrow> round_double x \<le> 0"
  using round_double_nonneg [of "- x"] by (simp add: round_double_minus)

lemma round_double_error: "\<bar>round_double x - x\<bar> \<le> ulp x / 2"
proof (cases "x = 0")
  case True
  then show ?thesis using ulp_pos [of 0] by simp
next
  case False
  define n where "n = round_even (\<bar>x\<bar> / ulp x)"
  have u: "0 < ulp x" by (rule ulp_pos)
  have "\<bar>of_int n - \<bar>x\<bar> / ulp x\<bar> \<le> 1 / 2" unfolding n_def by (rule round_even_near)
  then have "\<bar>of_int n - \<bar>x\<bar> / ulp x\<bar> * ulp x \<le> 1 / 2 * ulp x"
    using u by (intro mult_right_mono) simp_all
  moreover have "\<bar>of_int n - \<bar>x\<bar> / ulp x\<bar> * ulp x = \<bar>of_int n * ulp x - \<bar>x\<bar>\<bar>"
  proof -
    have "\<bar>of_int n - \<bar>x\<bar> / ulp x\<bar> * ulp x = \<bar>(of_int n - \<bar>x\<bar> / ulp x) * ulp x\<bar>"
      using u by (simp add: abs_mult)
    also have "(of_int n - \<bar>x\<bar> / ulp x) * ulp x = of_int n * ulp x - \<bar>x\<bar>"
      using u by (simp add: left_diff_distrib)
    finally show ?thesis .
  qed
  ultimately have a: "\<bar>of_int n * ulp x - \<bar>x\<bar>\<bar> \<le> ulp x / 2" by simp
  have "round_double x - x = sgn x * (of_int n * ulp x - \<bar>x\<bar>)"
    using False by (simp add: round_double_def n_def right_diff_distrib sgn_if)
  then have "\<bar>round_double x - x\<bar> = \<bar>of_int n * ulp x - \<bar>x\<bar>\<bar>"
    using False by (simp add: abs_mult sgn_if)
  with a show ?thesis by simp
qed

lemma floor_log2:
  assumes "2 powi e \<le> x" and "x < 2 powi (e + 1)"
  shows "\<lfloor>log 2 x\<rfloor> = e"
proof -
  have p: "0 < x" using assms(1) zero_less_power_int [of "2::real" e] by linarith
  have a: "(2::real) powr real_of_int e = 2 powi e"
    by (rule powr_real_of_int') simp_all
  have b: "(2::real) powr real_of_int (e + 1) = 2 powi (e + 1)"
    by (rule powr_real_of_int') simp_all
  have "(\<lfloor>log 2 x\<rfloor> = e) = (2 powr real_of_int e \<le> x \<and> x < 2 powr real_of_int (e + 1))"
    using p by (intro floor_log_eq_powr_iff) simp_all
  then show ?thesis using assms by (simp only: a b simp_thms)
qed

lemma ulp_eval:
  assumes "2 powi e \<le> \<bar>x\<bar>" and "\<bar>x\<bar> < 2 powi (e + 1)" and "- 1022 \<le> e"
  shows "ulp x = 2 powi (e - 52)"
  using floor_log2 [OF assms(1,2)] assms(3) by (simp add: ulp_def max_def)

lemma powi_two_mono: "a \<le> b \<Longrightarrow> (2::real) powi a \<le> 2 powi b"
  by (rule power_int_increasing) simp_all

lemma ulp_le:
  assumes "x \<noteq> 0" and "\<bar>x\<bar> < 2 powi j" and "- 1021 \<le> j"
  shows "ulp x \<le> 2 powi (j - 53)"
proof -
  have p: "0 < \<bar>x\<bar>" using assms(1) by simp
  have "\<bar>x\<bar> < 2 powr real_of_int j" using assms(2) by (simp add: powr_real_of_int')
  then have "log 2 \<bar>x\<bar> < real_of_int j" using p by (simp add: log_less_iff)
  then have "\<lfloor>log 2 \<bar>x\<bar>\<rfloor> < j" by (simp add: floor_less_iff)
  then have "max \<lfloor>log 2 \<bar>x\<bar>\<rfloor> (- 1022) - 52 \<le> j - 53" using assms(3) by simp
  then show ?thesis unfolding ulp_def by (rule powi_two_mono)
qed

lemma round_double_eval:
  assumes "0 < x" and "2 powi e \<le> x" and "x < 2 powi (e + 1)" and "- 1022 \<le> e"
    and "\<bar>of_int n - x / 2 powi (e - 52)\<bar> < 1 / 2"
  shows "round_double x = of_int n * 2 powi (e - 52)"
proof -
  have u: "ulp x = 2 powi (e - 52)" using assms by (intro ulp_eval) simp_all
  have "round_even (\<bar>x\<bar> / ulp x) = n"
    using assms(1,5) by (intro round_even_unique) (simp add: u)
  then show ?thesis using assms(1) by (simp add: round_double_def u)
qed

lemma round_double_eval_small:
  assumes "0 < x" and "2 ^ 52 \<le> x * 2 ^ k" and "x * 2 ^ k < 2 ^ 53" and "k \<le> 1074"
    and "\<bar>of_int n - x * 2 ^ k\<bar> < 1 / 2"
  shows "round_double x = of_int n / 2 ^ k"
proof -
  define e where "e = 52 - int k"
  have k: "(2::real) powi (e - 52) = 1 / 2 ^ k"
    by (simp add: e_def power_int_minus_divide)
  have "(2::real) powi (52 + (- int k)) = 2 powi 52 * 2 powi (- int k)"
    by (rule power_int_add) simp
  then have e1: "(2::real) powi e = 2 ^ 52 / 2 ^ k"
    by (simp add: e_def power_int_minus_divide)
  have "(2::real) powi (53 + (- int k)) = 2 powi 53 * 2 powi (- int k)"
    by (rule power_int_add) simp
  then have e2: "(2::real) powi (e + 1) = 2 ^ 53 / 2 ^ k"
    by (simp add: e_def power_int_minus_divide)
  have a: "2 powi e \<le> x" using assms(2) by (simp add: e1 field_simps)
  have "x < 2 ^ 53 / 2 ^ k" using assms(3) by (simp add: field_simps)
  then have b: "x < 2 powi (e + 1)" by (simp only: e2)
  have c: "- 1022 \<le> e" using assms(4) by (simp add: e_def)
  have d: "\<bar>of_int n - x / 2 powi (e - 52)\<bar> < 1 / 2" using assms(5) by (simp add: k)
  show ?thesis using round_double_eval [OF assms(1) a b c d] by (simp add: k)
qed

lemma round_double_eval_large:
  assumes "0 < x" and "2 ^ 52 \<le> x / 2 ^ k" and "x / 2 ^ k < 2 ^ 53"
    and "\<bar>of_int n - x / 2 ^ k\<bar> < 1 / 2"
  shows "round_double x = of_int n * 2 ^ k"
proof -
  define e where "e = 52 + int k"
  have k: "(2::real) powi (e - 52) = 2 ^ k" by (simp add: e_def)
  have "(2::real) powi (52 + int k) = 2 powi 52 * 2 powi (int k)"
    by (rule power_int_add) simp
  then have e1: "(2::real) powi e = 2 ^ 52 * 2 ^ k" by (simp add: e_def)
  have "(2::real) powi (53 + int k) = 2 powi 53 * 2 powi (int k)"
    by (rule power_int_add) simp
  then have e2: "(2::real) powi (e + 1) = 2 ^ 53 * 2 ^ k" by (simp add: e_def)
  have a: "2 powi e \<le> x" using assms(2) by (simp add: e1 field_simps)
  have "x < 2 ^ 53 * 2 ^ k" using assms(3) by (simp add: field_simps)
  then have b: "x < 2 powi (e + 1)" by (simp only: e2)
  have c: "- 1022 \<le> e" by (simp add: e_def)
  have d: "\<bar>of_int n - x / 2 powi (e - 52)\<bar> < 1 / 2" using assms(4) by (simp add: k)
  show ?thesis using round_double_eval [OF assms(1) a b c d] by (simp add: k)
qed

lemma round_double_power_of_two:
  assumes "- 1022 \<le> j"
  shows "round_double (2 powi j) = 2 powi j"
proof -
  have p: "(0::real) < 2 powi j" by (simp add: zero_less_power_int)
  have a: "(2::real) powi j < 2 powi (j + 1)" by (simp add: power_int_add)
  have "(2::real) powi j / 2 powi (j - 52) = 2 powi 52"
    by (simp add: power_int_diff)
  then have b: "\<bar>of_int (2 ^ 52) - (2::real) powi j / 2 powi (j - 52)\<bar> < 1 / 2" by simp
  have "round_double (2 powi j) = of_int (2 ^ 52) * 2 powi (j - 52)"
    using p _ a assms b by (rule round_double_eval) simp
  also have "\<dots> = 2 powi 52 * 2 powi (j - 52)" by simp
  also have "\<dots> = 2 powi j" by (simp add: power_int_add [symmetric] del: power_int_numeral)
  finally show ?thesis .
qed

lemma round_double_error_pow:
  assumes "\<bar>x\<bar> \<le> 2 powi j" and "- 1021 \<le> j"
  shows "\<bar>round_double x - x\<bar> \<le> 2 powi (j - 54)"
proof (cases "x = 0")
  case True
  then show ?thesis by (simp add: zero_less_power_int less_imp_le)
next
  case False
  show ?thesis
  proof (cases "\<bar>x\<bar> = 2 powi j")
    case True
    have "round_double \<bar>x\<bar> = \<bar>x\<bar>"
      unfolding True using assms(2) by (intro round_double_power_of_two) simp
    then have "round_double x = x"
      by (cases "0 \<le> x") (simp_all add: abs_if round_double_minus split: if_splits)
    then show ?thesis by (simp add: zero_less_power_int less_imp_le)
  next
    case neq: False
    then have "\<bar>x\<bar> < 2 powi j" using assms(1) by simp
    then have "ulp x \<le> 2 powi (j - 53)" using False assms(2) by (intro ulp_le)
    then have "ulp x / 2 \<le> 2 powi (j - 53) / 2" by simp
    also have "(2::real) powi (j - 53) / 2 = 2 powi (j - 54)"
    proof -
      have "(2::real) powi (j - 53) = 2 powi ((j - 54) + 1)" by simp
      also have "\<dots> = 2 powi (j - 54) * 2" by (rule power_int_add_1) simp
      finally show ?thesis by simp
    qed
    finally show ?thesis using round_double_error [of x] by linarith
  qed
qed

subsection \<open>Lower-casing and trimming: properties\<close>

lemma of_char_lt_256: "(of_char c :: nat) < 256"
  by (rule of_char_mod_256 [of c, THEN subst]) simp

lemma lower_char_cases:
  "lower_char c = c \<or> (97 \<le> (of_char (lower_char c) :: nat) \<and> lower_char c \<noteq> c
      \<and> ((65 \<le> (of_char c :: nat) \<and> of_char c \<le> (90::nat)) \<or> (192 \<le> (of_char c :: nat) \<and> of_char c \<le> (222::nat)))
      \<and> (of_char (lower_char c) :: nat) = of_char c + 32)"
proof -
  have "(of_char c :: nat) < 256" by (rule of_char_lt_256)
  then show ?thesis
    by (auto simp: lower_char_def Let_def)
qed

lemma isspace_lower_char [simp]: "isspace (lower_char c) = isspace c"
  using lower_char_cases [of c] by (auto simp: isspace_def Let_def)

lemma lower_char_idem [simp]: "lower_char (lower_char c) = lower_char c"
  using lower_char_cases [of c] of_char_lt_256 [of c]
  by (auto simp: lower_char_def Let_def)

lemma lower_char_eq_question [simp]: "(lower_char c = CHR ''?'') = (c = CHR ''?'')"
proof -
  have "(of_char (CHR ''?'') :: nat) = 63" by simp
  then show ?thesis using lower_char_cases [of c] by auto
qed

lemma dropWhile_isspace_lower:
  "dropWhile isspace (map lower_char xs) = map lower_char (dropWhile isspace xs)"
  by (induction xs) simp_all

lemma strip_lower: "strip (lower s) = lower (strip s)"
proof -
  have "strip (map lower_char s)
        = rev (dropWhile isspace (map lower_char (rev (dropWhile isspace s))))"
    by (simp only: strip_def dropWhile_isspace_lower rev_map)
  also have "\<dots> = map lower_char (strip s)"
    by (simp only: strip_def dropWhile_isspace_lower rev_map)
  finally show ?thesis by (simp only: lower_def)
qed

lemma lower_idem [simp]: "lower (lower s) = lower s"
  by (simp add: lower_def)

lemma dropWhile_fix: "xs = [] \<or> \<not> P (hd xs) \<Longrightarrow> dropWhile P xs = xs"
  by (cases xs) auto

lemma hd_dropWhile_not: "dropWhile P xs = [] \<or> \<not> P (hd (dropWhile P xs))"
  using hd_dropWhile [of P xs] by blast

lemma strip_edges:
  "(strip s = [] \<or> \<not> isspace (hd (strip s))) \<and> (strip s = [] \<or> \<not> isspace (last (strip s)))"
proof -
  define u where "u = dropWhile isspace s"
  define v where "v = dropWhile isspace (rev u)"
  have s: "strip s = rev v" by (simp add: strip_def u_def v_def)
  have u: "u = [] \<or> \<not> isspace (hd u)" unfolding u_def by (rule hd_dropWhile_not)
  have v: "v = [] \<or> \<not> isspace (hd v)" unfolding v_def by (rule hd_dropWhile_not)
  have l: "strip s = [] \<or> \<not> isspace (last (strip s))"
    using v by (cases v) (auto simp: s)
  have h: "strip s = [] \<or> \<not> isspace (hd (strip s))"
  proof (cases u)
    case Nil
    then show ?thesis by (simp add: s v_def)
  next
    case (Cons a u')
    then have a: "\<not> isspace a" using u by simp
    have "v = dropWhile isspace (rev u') @ [a]"
      using a by (simp add: v_def Cons dropWhile_append)
    then have "strip s = a # rev (dropWhile isspace (rev u'))" by (simp add: s)
    then show ?thesis using a by simp
  qed
  show ?thesis using h l by blast
qed

lemma strip_idem [simp]: "strip (strip s) = strip s"
proof -
  define t where "t = strip s"
  have h: "t = [] \<or> \<not> isspace (hd t)" and l: "t = [] \<or> \<not> isspace (last t)"
    using strip_edges [of s] by (simp_all add: t_def)
  have a: "dropWhile isspace t = t" using h by (rule dropWhile_fix)
  have "rev t = [] \<or> \<not> isspace (hd (rev t))" using l by (cases "t = []") (simp_all add: hd_rev)
  then have b: "dropWhile isspace (rev t) = rev t" by (rule dropWhile_fix)
  have "strip t = t" by (simp add: strip_def a b)
  then show ?thesis by (simp add: t_def)
qed

lemma norm_idem: "strip (lower (strip (lower s))) = strip (lower s)"
  by (simp add: strip_lower)

lemma all_space_split_acc:
  "\<forall>c\<in>set ws. isspace c \<Longrightarrow> split_acc cur ws = (if cur = [] then [] else [cur])"
  by (induction ws arbitrary: cur) auto

lemma split_acc_trailing:
  "\<forall>c\<in>set ws. isspace c \<Longrightarrow> split_acc cur (s @ ws) = split_acc cur s"
  by (induction s arbitrary: cur) (auto simp: all_space_split_acc)

lemma split_acc_leading: "split_acc [] (dropWhile isspace s) = split_acc [] s"
  by (induction s) auto

lemma split_strip: "split (strip s) = split s"
proof -
  define u where "u = dropWhile isspace s"
  have "rev (takeWhile isspace (rev u) @ dropWhile isspace (rev u)) = u"
    by (simp only: takeWhile_dropWhile_id rev_rev_ident)
  then have "rev (dropWhile isspace (rev u)) @ rev (takeWhile isspace (rev u)) = u"
    by (simp only: rev_append)
  then have d: "u = strip s @ rev (takeWhile isspace (rev u))"
    by (simp add: strip_def u_def)
  have "\<forall>c\<in>set (rev (takeWhile isspace (rev u))). isspace c"
    by (auto dest: set_takeWhileD)
  then have "split_acc [] (strip s @ rev (takeWhile isspace (rev u))) = split_acc [] (strip s)"
    by (rule split_acc_trailing)
  with d have "split_acc [] u = split_acc [] (strip s)" by simp
  then show ?thesis by (simp add: split_def u_def split_acc_leading)
qed

lemma split_acc_lower:
  "(cur = []) = (cur' = []) \<Longrightarrow>
   length (split_acc cur (map lower_char s)) = length (split_acc cur' s)"
proof (induction s arbitrary: cur cur')
  case Nil
  then show ?case by simp
next
  case (Cons c s)
  have "length (split_acc (cur @ [lower_char c]) (map lower_char s))
        = length (split_acc (cur' @ [c]) s)"
    by (rule Cons.IH) simp
  moreover have "length (split_acc [] (map lower_char s)) = length (split_acc [] s)"
    by (rule Cons.IH) simp
  ultimately show ?case using Cons.prems by simp
qed

lemma word_count_norm: "length (split (strip (lower s))) = length (split s)"
  using split_acc_lower [of "[]" "[]" s] by (simp add: split_strip) (simp add: split_def lower_def)

lemma filter_dropWhile_disjoint:
  "(\<And>x. P x \<Longrightarrow> \<not> Q x) \<Longrightarrow> filter Q (dropWhile P xs) = filter Q xs"
  by (induction xs) auto

lemma count_strip: "\<not> isspace c \<Longrightarrow> count (strip s) c = count s c"
proof -
  assume c: "\<not> isspace c"
  have d: "filter (\<lambda>x. x = c) (dropWhile isspace xs) = filter (\<lambda>x. x = c) xs" for xs
    using c by (intro filter_dropWhile_disjoint) auto
  have "count (strip s) c
        = length (rev (filter (\<lambda>x. x = c) (dropWhile isspace (rev (dropWhile isspace s)))))"
    by (simp only: count_def strip_def rev_filter)
  also have "\<dots> = length (filter (\<lambda>x. x = c) (rev (dropWhile isspace s)))"
    by (simp only: d length_rev)
  also have "\<dots> = length (rev (filter (\<lambda>x. x = c) (dropWhile isspace s)))"
    by (simp only: rev_filter)
  also have "\<dots> = length (filter (\<lambda>x. x = c) s)"
    by (simp only: d length_rev)
  finally show ?thesis by (simp only: count_def)
qed

lemma count_lower_question: "count (lower s) (CHR ''?'') = count s (CHR ''?'')"
  by (induction s) (simp_all add: count_def lower_def)

lemma questions_norm: "has_multiple_questions (strip (lower s)) = has_multiple_questions s"
proof -
  have "\<not> isspace (CHR ''?'')" by (simp add: isspace_def)
  then show ?thesis
    by (simp add: has_multiple_questions_def count_strip count_lower_question)
qed

subsection \<open>Substrings and trimming: properties\<close>

lemma str_in_set: "str_in kw s \<Longrightarrow> set kw \<subseteq> set s"
proof (induction s)
  case Nil
  then show ?case by simp
next
  case (Cons c s)
  from Cons.prems have "prefix kw (c # s) \<or> str_in kw s" by simp
  then show ?case
  proof
    assume "prefix kw (c # s)"
    then show ?thesis by (rule set_mono_prefix)
  next
    assume "str_in kw s"
    then have "set kw \<subseteq> set s" by (rule Cons.IH)
    then show ?thesis by auto
  qed
qed

lemma set_strip: "set (strip s) \<subseteq> set s"
proof -
  have "set (dropWhile isspace (rev (dropWhile isspace s))) \<subseteq> set (rev (dropWhile isspace s))"
    by (rule set_dropWhileD [THEN subsetI])
  moreover have "set (dropWhile isspace s) \<subseteq> set s"
    by (rule set_dropWhileD [THEN subsetI])
  ultimately show ?thesis by (simp add: strip_def)
qed

lemma keyword_needs_chars:
  "str_in kw (strip (lower q)) \<Longrightarrow> set kw \<subseteq> lower_char ` set q"
proof -
  assume "str_in kw (strip (lower q))"
  then have "set kw \<subseteq> set (strip (lower q))" by (rule str_in_set)
  also have "\<dots> \<subseteq> set (lower q)" by (rule set_strip)
  also have "\<dots> = lower_char ` set q" by (simp add: lower_def)
  finally show ?thesis .
qed

lemma strip_Cons:
  "\<not> isspace c \<Longrightarrow> strip (c # s) = c # rev (dropWhile isspace (rev s))"
  by (simp add: strip_def dropWhile_append)

subsection \<open>Simple patterns: properties\<close>

lemma lower_char_letters:
  "lower_char (CHR ''h'') = CHR ''h''" "lower_char (CHR ''o'') = CHR ''o''"
  "lower_char (CHR ''t'') = CHR ''t''" "lower_char (CHR ''y'') = CHR ''y''"
  "lower_char (CHR ''b'') = CHR ''b''" "lower_char (CHR ''w'') = CHR ''w''"
  "lower_char (CHR ''l'') = CHR ''l''" "lower_char (CHR ''n'') = CHR ''n''"
  "lower_char (CHR ''g'') = CHR ''g''" "lower_char (CHR ''d'') = CHR ''d''"
  "lower_char (CHR ''a'') = CHR ''a''" "lower_char (CHR '' '') = CHR '' ''"
  by (simp_all add: lower_char_def)

lemma simple_pattern_head:
  assumes "lower_char c \<notin> set ''hotybwlngd''"
  shows "\<not> list_ex (\<lambda>pattern. re_match True pattern (c # s)) SIMPLE_PATTERNS"
  using assms by (simp add: SIMPLE_PATTERNS_def re_match_def lower_char_letters)

subsection \<open>A long query: properties\<close>

lemma split_acc_a_space:
  "length (split_acc [] (concat (replicate n ''a ''))) = n"
proof (induction n)
  case 0
  show ?case by simp
next
  case (Suc n)
  have "\<not> isspace (CHR ''a'')" "isspace (CHR '' '')" by (simp_all add: isspace_def)
  then show ?case using Suc by simp
qed

lemma long_query_set: "set long_query = {CHR ''a'', CHR '' ''}"
  by (simp add: long_query_def)

lemma long_query_chars: "lower_char ` set long_query = {CHR ''a'', CHR '' ''}"
  by (simp add: long_query_set lower_char_letters)

lemma long_query_Cons: "long_query = CHR ''a'' # tl long_query"
proof -
  have "replicate 150 ''a '' = ''a '' # replicate 149 ''a ''"
    by (simp only: replicate_Suc [symmetric]) simp
  then show ?thesis by (simp add: long_query_def)
qed

lemma long_query_no_pattern:
  "\<not> list_ex (\<lambda>pattern. re_match True pattern (strip (lower long_query))) SIMPLE_PATTERNS"
proof -
  have l: "lower long_query = CHR ''a'' # lower (tl long_query)"
    by (subst long_query_Cons) (simp add: lower_def lower_char_letters)
  have "\<not> isspace (CHR ''a'')" by (simp add: isspace_def)
  then have "strip (CHR ''a'' # lower (tl long_query))
      = CHR ''a'' # rev (dropWhile isspace (rev (lower (tl long_query))))"
    by (rule strip_Cons)
  then have "strip (lower long_query)
      = CHR ''a'' # rev (dropWhile isspace (rev (lower (tl long_query))))"
    by (simp only: l)
  moreover have "lower_char (CHR ''a'') \<notin> set ''hotybwlngd''"
    by (simp add: lower_char_letters)
  ultimately show ?thesis by (simp only: simple_pattern_head not_False_eq_True)
qed

lemma long_query_no_strong:
  "\<not> list_ex (\<lambda>keyword. str_in keyword (strip (lower long_query))) STRONG_KEYWORDS"
proof -
  have "\<not> str_in kw (strip (lower long_query))" if "\<not> set kw \<subseteq> {CHR ''a'', CHR '' ''}" for kw
    using that keyword_needs_chars [of kw long_query] by (simp only: long_query_chars) blast
  then show ?thesis by (simp add: STRONG_KEYWORDS_def)
qed

lemma long_query_no_normal:
  "\<not> list_ex (\<lambda>keyword. str_in keyword (strip (lower long_query))) NORMAL_KEYWORDS"
proof -
  have "\<not> str_in kw (strip (lower long_query))" if "\<not> set kw \<subseteq> {CHR ''a'', CHR '' ''}" for kw
    using that keyword_needs_chars [of kw long_query] by (simp only: long_query_chars) blast
  then show ?thesis by (simp add: NORMAL_KEYWORDS_def)
qed

lemma long_query_words: "length (split long_query) = 150"
  by (simp add: split_def long_query_def split_acc_a_space)

lemma long_query_no_code: "\<not> has_code long_query"
proof -
  have "\<not> str_in kw long_query" if "\<not> set kw \<subseteq> {CHR ''a'', CHR '' ''}" for kw
    using that str_in_set [of kw long_query] by (simp only: long_query_set) blast
  then show ?thesis by (simp add: has_code_def)
qed

subsection \<open>Rule-based classification: properties\<close>

lemma classify_complexity_stages:
  "classify_complexity prompt =
     (if list_ex (\<lambda>pattern. re_match True pattern (strip (lower prompt))) SIMPLE_PATTERNS
      then ''fast''
      else if list_ex (\<lambda>keyword. str_in keyword (strip (lower prompt))) STRONG_KEYWORDS
      then ''strong''
      else if list_ex (\<lambda>keyword. str_in keyword (strip (lower prompt))) NORMAL_KEYWORDS
      then ''normal''
      else if has_complex_code prompt \<or> has_multiple_questions prompt then ''strong''
      else if has_code prompt then ''normal''
      else if length (split prompt) > 100 then ''strong''
      else if length (split prompt) > 30 then ''normal''
      else if length (split prompt) < 10 then ''fast''
      else ''normal'')"
  by (simp add: classify_complexity_def Let_def)

text \<open>
  Claim C2, as stated, fails: the simple patterns are tried before any keyword, so a query
  that is a definition request is fast even when it holds a strong and a normal keyword.
\<close>

theorem strong_priority_counterexample:
  "list_ex (\<lambda>keyword. str_in keyword ''define algorithm example'') STRONG_KEYWORDS \<and>
   list_ex (\<lambda>keyword. str_in keyword ''define algorithm example'') NORMAL_KEYWORDS \<and>
   classify_complexity ''define algorithm example'' = ''fast''"
  by code_simp

text \<open>
  Claim C2, amended. For every query whose lower-cased, trimmed text matches no simple
  pattern and contains a strong keyword and a normal keyword, \<open>classify_complexity\<close>
  returns strong.
\<close>

theorem strong_beats_normal:
  assumes "\<not> list_ex (\<lambda>pattern. re_match True pattern (strip (lower q))) SIMPLE_PATTERNS"
    and "list_ex (\<lambda>keyword. str_in keyword (strip (lower q))) STRONG_KEYWORDS"
    and "list_ex (\<lambda>keyword. str_in keyword (strip (lower q))) NORMAL_KEYWORDS"
  shows "classify_complexity q = ''strong''"
  using assms by (simp add: classify_complexity_stages)

lemma priority_sample_norm:
  "strip (lower ''explain how to optimize this algorithm'') = ''explain how to optimize this algorithm''"
  by code_simp

lemma priority_sample_no_pattern:
  "\<not> list_ex (\<lambda>pattern. re_match True pattern ''explain how to optimize this algorithm'') SIMPLE_PATTERNS"
  by code_simp

lemma priority_sample_strong:
  "list_ex (\<lambda>keyword. str_in keyword ''explain how to optimize this algorithm'') STRONG_KEYWORDS"
  by code_simp

lemma priority_sample_normal:
  "list_ex (\<lambda>keyword. str_in keyword ''explain how to optimize this algorithm'') NORMAL_KEYWORDS"
  by code_simp

text \<open>
  The spec's own example query satisfies the three hypotheses of C2 as amended.
\<close>

theorem strong_beats_normal_witness:
  "\<not> list_ex (\<lambda>pattern. re_match True pattern
       (strip (lower ''explain how to optimize this algorithm''))) SIMPLE_PATTERNS \<and>
   list_ex (\<lambda>keyword. str_in keyword
       (strip (lower ''explain how to optimize this algorithm''))) STRONG_KEYWORDS \<and>
   list_ex (\<lambda>keyword. str_in keyword
       (strip (lower ''explain how to optimize this algorithm''))) NORMAL_KEYWORDS \<and>
   classify_complexity ''explain how to optimize this algorithm'' = ''strong''"
  using strong_beats_normal [of "''explain how to optimize this algorithm''"]
  by (simp only: priority_sample_norm priority_sample_no_pattern priority_sample_strong
        priority_sample_normal not_False_eq_True simp_thms)

lemma example_hi: "classify_complexity ''hi'' = ''fast''"
  by code_simp

lemma example_thanks: "classify_complexity ''thanks!'' = ''fast''"
  by code_simp

lemma example_gravity: "classify_complexity ''what is gravity?'' = ''fast''"
  by code_simp

lemma example_photosynthesis:
  "classify_complexity ''Explain how photosynthesis works'' = ''normal''"
  by code_simp

lemma example_cpu:
  "classify_complexity ''Explain in detail and step by step the architecture of a CPU'' = ''strong''"
  by code_simp

text \<open>
  Claim C3. The five example queries are classified fast, fast, fast, normal and strong;
  every query of 150 words with no keyword, no simple pattern and no code marker is strong;
  every query of 5 words with no keyword, no simple pattern, no code marker and at most one
  question mark is fast. Keywords and patterns are looked for in the lower-cased, trimmed
  text, words and code markers in the query as given, as the source does.
\<close>

theorem rule_based_examples:
  "classify_complexity ''hi'' = ''fast'' \<and>
   classify_complexity ''thanks!'' = ''fast'' \<and>
   classify_complexity ''what is gravity?'' = ''fast'' \<and>
   classify_complexity ''Explain how photosynthesis works'' = ''normal'' \<and>
   classify_complexity ''Explain in detail and step by step the architecture of a CPU''
     = ''strong'' \<and>
   (\<forall>q. length (split q) = 150 \<and>
        \<not> list_ex (\<lambda>keyword. str_in keyword (strip (lower q))) STRONG_KEYWORDS \<and>
        \<not> list_ex (\<lambda>keyword. str_in keyword (strip (lower q))) NORMAL_KEYWORDS \<and>
        \<not> list_ex (\<lambda>pattern. re_match True pattern (strip (lower q))) SIMPLE_PATTERNS \<and>
        \<not> has_code q
        \<longrightarrow> classify_complexity q = ''strong'') \<and>
   (\<forall>q. length (split q) = 5 \<and>
        \<not> list_ex (\<lambda>keyword. str_in keyword (strip (lower q))) STRONG_KEYWORDS \<and>
        \<not> list_ex (\<lambda>keyword. str_in keyword (strip (lower q))) NORMAL_KEYWORDS \<and>
        \<not> list_ex (\<lambda>pattern. re_match True pattern (strip (lower q))) SIMPLE_PATTERNS \<and>
        \<not> has_code q \<and> count q (CHR ''?'') \<le> 1
        \<longrightarrow> classify_complexity q = ''fast'')"
proof -
  have long: "classify_complexity q = ''strong''"
    if "length (split q) = 150"
      "\<not> list_ex (\<lambda>keyword. str_in keyword (strip (lower q))) STRONG_KEYWORDS"
      "\<not> list_ex (\<lambda>keyword. str_in keyword (strip (lower q))) NORMAL_KEYWORDS"
      "\<not> list_ex (\<lambda>pattern. re_match True pattern (strip (lower q))) SIMPLE_PATTERNS"
      "\<not> has_code q" for q
    using that by (simp add: classify_complexity_stages has_complex_code_def)
  have short: "classify_complexity q = ''fast''"
    if "length (split q) = 5"
      "\<not> list_ex (\<lambda>keyword. str_in keyword (strip (lower q))) STRONG_KEYWORDS"
      "\<not> list_ex (\<lambda>keyword. str_in keyword (strip (lower q))) NORMAL_KEYWORDS"
      "\<not> list_ex (\<lambda>pattern. re_match True pattern (strip (lower q))) SIMPLE_PATTERNS"
      "\<not> has_code q" "count q (CHR ''?'') \<le> 1" for q
    using that
    by (simp add: classify_complexity_stages has_complex_code_def has_multiple_questions_def)
  show ?thesis
    using long short example_hi example_thanks example_gravity example_photosynthesis example_cpu
    by blast
qed

lemma short_query_norm: "strip (lower short_query) = short_query"
  by code_simp

lemma short_query_no_pattern:
  "\<not> list_ex (\<lambda>pattern. re_match True pattern short_query) SIMPLE_PATTERNS"
  by code_simp

lemma short_query_no_strong:
  "\<not> list_ex (\<lambda>keyword. str_in keyword short_query) STRONG_KEYWORDS"
  by code_simp

lemma short_query_no_normal:
  "\<not> list_ex (\<lambda>keyword. str_in keyword short_query) NORMAL_KEYWORDS"
  by code_simp

lemma short_query_words: "length (split short_query) = 5"
  by code_simp

lemma short_query_no_code: "\<not> has_code short_query"
  by code_simp

lemma short_query_questions: "count short_query (CHR ''?'') \<le> 1"
  by code_simp

text \<open>
  Both general parts of C3 apply to a concrete query: 150 one-letter words, and a five-word
  sentence.
\<close>

theorem rule_based_examples_witness:
  "length (split long_query) = 150 \<and> \<not> has_code long_query \<and>
   classify_complexity long_query = ''strong'' \<and>
   length (split short_query) = 5 \<and> \<not> has_code short_query \<and>
   count short_query (CHR ''?'') \<le> 1 \<and>
   classify_complexity short_query = ''fast''"
proof -
  note r = rule_based_examples [THEN conjunct2, THEN conjunct2, THEN conjunct2, THEN conjunct2,
      THEN conjunct2]
  have a: "classify_complexity long_query = ''strong''"
    using r [THEN conjunct1, rule_format, of long_query] long_query_words long_query_no_code
      long_query_no_pattern long_query_no_strong long_query_no_normal
    by (simp only: simp_thms)
  have b: "classify_complexity short_query = ''fast''"
    using r [THEN conjunct2, rule_format, of short_query] short_query_words short_query_no_code
      short_query_no_pattern short_query_no_strong short_query_no_normal short_query_questions
    by (simp only: short_query_norm simp_thms)
  show ?thesis
    using a b long_query_words long_query_no_code short_query_words short_query_no_code
      short_query_questions by simp
qed

text \<open>
  Claim C9, as stated, fails: the code markers are searched case-sensitively in the query as
  given, so changing the case of one letter changes the tier.
\<close>

theorem case_invariance_counterexample:
  "classify_complexity ''Def foo'' = ''fast'' \<and>
   strip (lower ''Def foo'') = ''def foo'' \<and>
   classify_complexity (strip (lower ''Def foo'')) = ''normal''"
  by code_simp

text \<open>
  Claim C9, amended. \<open>classify_complexity\<close> gives a query and its lower-cased, trimmed
  form the same tier whenever the two agree on the two checks that read the raw text: a code
  marker is present, and a code marker is present together with more than 5 newlines.
\<close>

theorem classify_normalised:
  assumes "has_code (strip (lower q)) = has_code q"
    and "has_complex_code (strip (lower q)) = has_complex_code q"
  shows "classify_complexity (strip (lower q)) = classify_complexity q"
  unfolding classify_complexity_stages [of q] classify_complexity_stages [of "strip (lower q)"]
  by (simp only: norm_idem word_count_norm questions_norm assms)

text \<open>
  A query with capitals and surrounding blanks satisfies the hypotheses of C9 as amended.
\<close>

theorem classify_normalised_witness:
  "has_code (strip (lower spaced_query)) = has_code spaced_query \<and>
   has_complex_code (strip (lower spaced_query)) = has_complex_code spaced_query \<and>
   strip (lower spaced_query) = ''hello there  my friend'' \<and>
   classify_complexity ''hello there  my friend'' = classify_complexity spaced_query"
proof -
  have n: "strip (lower spaced_query) = ''hello there  my friend''" by code_simp
  have a: "has_code ''hello there  my friend'' = has_code spaced_query" by code_simp
  have b: "has_complex_code ''hello there  my friend'' = has_complex_code spaced_query"
    by code_simp
  have "classify_complexity (strip (lower spaced_query)) = classify_complexity spaced_query"
    using a b by (intro classify_normalised) (simp_all only: n)
  then show ?thesis using a b by (simp only: n simp_thms)
qed

subsection \<open>Model-assisted classification: properties\<close>

lemma json_search_sample1:
  "re_search False JSON_PATTERN ''{\"difficulty\": 5}'' = Some ''{\"difficulty\": 5}''"
  by code_simp

lemma json_search_sample2:
  "re_search False JSON_PATTERN ''{\"difficulty\": \"fast\", \"temperature\": null}''
     = Some ''{\"difficulty\": \"fast\", \"temperature\": null}''"
  by code_simp

text \<open>
  Claim C1 at two outputs of the router model. In \<^verbatim>\<open>smart_router.py\<close> a numeric
  \<^verbatim>\<open>difficulty\<close> raises AttributeError at \<^verbatim>\<open>.lower()\<close> and a null
  \<^verbatim>\<open>temperature\<close> raises TypeError at \<^verbatim>\<open>float\<close>; neither is in the \<^verbatim>\<open>except\<close> clause,
  so the exception reaches the caller. \<^verbatim>\<open>web_ui.py\<close> catches every exception and returns
  its fallback on the same output.
\<close>

theorem classify_with_ai_propagates:
  "smart_router_classify_with_ai sample_json_loads sample_str_to_float libm_pow2 libm_exp
       (Inr (JStr ''{\"difficulty\": 5}'')) = Inl AttributeError \<and>
   smart_router_classify_with_ai sample_json_loads sample_str_to_float libm_pow2 libm_exp
       (Inr (JStr ''{\"difficulty\": \"fast\", \"temperature\": null}'')) = Inl TypeError \<and>
   web_ui_classify_with_ai sample_json_loads sample_str_to_float libm_pow2 libm_exp
       (Inr (JStr ''{\"difficulty\": 5}'')) = Inr web_ui_fallback"
  by (simp add: smart_router_classify_with_ai_def web_ui_classify_with_ai_def
      classify_try_body_def json_search_sample1 json_search_sample2 sample_json_loads_def
      dict_get_def del: re_search.simps)

lemma web_ui_classify_total:
  "\<exists>d. web_ui_classify_with_ai json_loads str_to_float libm_pow2 libm_exp generate_simple = Inr d"
  by (simp add: web_ui_classify_with_ai_def split: sum.split option.split)

lemma web_ui_classify_fails_soft:
  "classify_try_body json_loads str_to_float libm_pow2 libm_exp generate_simple = Inl e \<Longrightarrow>
   web_ui_classify_with_ai json_loads str_to_float libm_pow2 libm_exp generate_simple = Inr web_ui_fallback"
  by (simp add: web_ui_classify_with_ai_def)

lemma smart_router_classify_caught:
  "classify_try_body json_loads str_to_float libm_pow2 libm_exp generate_simple = Inl e \<Longrightarrow>
   e \<in> {JSONDecodeError, RequestException, ValueError} \<Longrightarrow>
   smart_router_classify_with_ai json_loads str_to_float libm_pow2 libm_exp generate_simple
     = Inr smart_router_fallback"
  by (auto simp: smart_router_classify_with_ai_def)

subsection \<open>JSON extraction: properties\<close>

lemma close_brace_rests:
  "rests False (Cat [Lit ''}'']) r =
     (case r of [] \<Rightarrow> [] | c # x \<Rightarrow> if c = CHR ''}'' then [x] else [])"
  by (cases r) simp_all

lemma body_rests:
  "concat (map (rests False (Cat [Lit ''}'']))
       (map snd (filter (\<lambda>(k, _). 1 \<le> k \<and> (case None of None \<Rightarrow> True | Some h \<Rightarrow> k \<le> h))
                        (rep_rests (NotChar (CHR ''}'')) n s))))
   = (if 1 \<le> n + length (takeWhile (\<lambda>c. c \<noteq> CHR ''}'') s)
      then (case dropWhile (\<lambda>c. c \<noteq> CHR ''}'') s of [] \<Rightarrow> [] | c # x \<Rightarrow> [x])
      else [])"
proof (induction s arbitrary: n)
  case Nil
  show ?case by (simp add: close_brace_rests)
next
  case (Cons c s)
  show ?case
  proof (cases "c = CHR ''}''")
    case True
    then show ?thesis by (simp add: close_brace_rests)
  next
    case False
    then show ?thesis using Cons.IH [of "Suc n"] by (simp add: close_brace_rests)
  qed
qed

lemma json_pattern_rests_Cons:
  "rests False JSON_PATTERN (CHR ''{'' # cs) =
     (if takeWhile (\<lambda>c. c \<noteq> CHR ''}'') cs \<noteq> []
      then (case dropWhile (\<lambda>c. c \<noteq> CHR ''}'') cs of [] \<Rightarrow> [] | d # x \<Rightarrow> [x])
      else [])"
proof -
  have a: "rests False (Lit ''{'') (CHR ''{'' # cs) = [cs]" by simp
  have "rests False JSON_PATTERN (CHR ''{'' # cs)
      = concat (map (rests False (Cat [Rep (NotChar (CHR ''}'')) 1 None, Lit ''}''])) [cs])"
    by (simp only: JSON_PATTERN_def rests.simps(4) a)
  also have "\<dots> = rests False (Cat [Rep (NotChar (CHR ''}'')) 1 None, Lit ''}'']) cs"
    by simp
  also have "\<dots> = concat (map (rests False (Cat [Lit ''}'']))
       (map snd (filter (\<lambda>(k, _). 1 \<le> k \<and> (case None of None \<Rightarrow> True | Some h \<Rightarrow> k \<le> h))
                        (rep_rests (NotChar (CHR ''}'')) 0 cs))))"
    by (simp only: rests.simps(4,6))
  also have "\<dots> = (if 1 \<le> 0 + length (takeWhile (\<lambda>c. c \<noteq> CHR ''}'') cs)
      then (case dropWhile (\<lambda>c. c \<noteq> CHR ''}'') cs of [] \<Rightarrow> [] | c # x \<Rightarrow> [x])
      else [])"
    by (rule body_rests)
  finally show ?thesis by (simp add: Suc_le_eq)
qed

lemma json_pattern_rests_other:
  "c \<noteq> CHR ''{'' \<Longrightarrow> rests False JSON_PATTERN (c # cs) = []"
  by (simp add: JSON_PATTERN_def)

lemma json_pattern_rests_Nil: "rests False JSON_PATTERN [] = []"
  by (simp add: JSON_PATTERN_def)

lemma search_hit:
  assumes c: "c = CHR ''{''" and tw: "takeWhile (\<lambda>c. c \<noteq> CHR ''}'') cs \<noteq> []"
    and dw: "dropWhile (\<lambda>c. c \<noteq> CHR ''}'') cs \<noteq> []"
  shows "re_search False JSON_PATTERN (c # cs)
         = Some (CHR ''{'' # takeWhile (\<lambda>c. c \<noteq> CHR ''}'') cs @ ''}'') \<and>
       (\<exists>post. c # cs = (CHR ''{'' # takeWhile (\<lambda>c. c \<noteq> CHR ''}'') cs @ ''}'') @ post)"
proof -
  define body where "body = takeWhile (\<lambda>c. c \<noteq> CHR ''}'') cs"
  obtain d x where dx: "dropWhile (\<lambda>c. c \<noteq> CHR ''}'') cs = d # x"
    using dw by (cases "dropWhile (\<lambda>c. c \<noteq> CHR ''}'') cs") auto
  have "\<not> (hd (dropWhile (\<lambda>c. c \<noteq> CHR ''}'') cs) \<noteq> CHR ''}'')"
    using dw by (rule hd_dropWhile)
  then have d: "d = CHR ''}''" by (simp add: dx)
  have "takeWhile (\<lambda>c. c \<noteq> CHR ''}'') cs @ dropWhile (\<lambda>c. c \<noteq> CHR ''}'') cs = cs"
    by (rule takeWhile_dropWhile_id)
  then have parts: "cs = body @ CHR ''}'' # x" by (simp add: dx d body_def)
  have r: "rests False JSON_PATTERN (CHR ''{'' # cs) = [x]"
    using tw by (simp add: json_pattern_rests_Cons dx)
  have "length (CHR ''{'' # cs) - length x = Suc (Suc (length body))"
    by (simp add: parts)
  moreover have "take (Suc (Suc (length body))) (CHR ''{'' # body @ CHR ''}'' # x)
      = CHR ''{'' # body @ ''}''" by simp
  ultimately have "take (length (CHR ''{'' # cs) - length x) (CHR ''{'' # cs)
      = CHR ''{'' # body @ ''}''" by (simp only: parts)
  then have "re_search False JSON_PATTERN (CHR ''{'' # cs) = Some (CHR ''{'' # body @ ''}'')"
    by (simp only: re_search.simps r list.case)
  moreover have "CHR ''{'' # cs = (CHR ''{'' # body @ ''}'') @ x" by (simp add: parts)
  ultimately have "re_search False JSON_PATTERN (CHR ''{'' # cs) = Some (CHR ''{'' # body @ ''}'') \<and>
      (\<exists>post. CHR ''{'' # cs = (CHR ''{'' # body @ ''}'') @ post)" by blast
  then show ?thesis by (simp only: c body_def)
qed

lemma search_miss:
  assumes "c \<noteq> CHR ''{'' \<or> takeWhile (\<lambda>c. c \<noteq> CHR ''}'') cs = []
     \<or> dropWhile (\<lambda>c. c \<noteq> CHR ''}'') cs = []"
  shows "re_search False JSON_PATTERN (c # cs) = re_search False JSON_PATTERN cs"
proof -
  have "rests False JSON_PATTERN (c # cs) = []"
  proof (cases "c = CHR ''{''")
    case False
    then show ?thesis by (rule json_pattern_rests_other)
  next
    case True
    then have "takeWhile (\<lambda>c. c \<noteq> CHR ''}'') cs = [] \<or> dropWhile (\<lambda>c. c \<noteq> CHR ''}'') cs = []"
      using assms by blast
    then have "(if takeWhile (\<lambda>c. c \<noteq> CHR ''}'') cs \<noteq> []
        then (case dropWhile (\<lambda>c. c \<noteq> CHR ''}'') cs of [] \<Rightarrow> [] | d # x \<Rightarrow> [x])
        else []) = ([] :: string list)"
    proof
      assume "takeWhile (\<lambda>c. c \<noteq> CHR ''}'') cs = []"
      then show ?thesis by (simp only: not_True_eq_False simp_thms if_False)
    next
      assume "dropWhile (\<lambda>c. c \<noteq> CHR ''}'') cs = []"
      then show ?thesis by (simp only: list.case if_cancel)
    qed
    then show ?thesis by (simp only: True json_pattern_rests_Cons)
  qed
  then show ?thesis by (simp only: re_search.simps list.case)
qed

lemma search_sound:
  "re_search False JSON_PATTERN s = Some m \<Longrightarrow>
   \<exists>pre body post. s = pre @ m @ post \<and> m = CHR ''{'' # body @ ''}'' \<and> body \<noteq> [] \<and>
     CHR ''}'' \<notin> set body"
proof (induction s)
  case Nil
  then show ?case by (simp add: json_pattern_rests_Nil)
next
  case (Cons c cs)
  define tw where "tw = takeWhile (\<lambda>c. c \<noteq> CHR ''}'') cs"
  show ?case
  proof (cases "c = CHR ''{'' \<and> tw \<noteq> [] \<and> dropWhile (\<lambda>c. c \<noteq> CHR ''}'') cs \<noteq> []")
    case True
    then have "re_search False JSON_PATTERN (c # cs) = Some (CHR ''{'' # tw @ ''}'') \<and>
        (\<exists>post. c # cs = (CHR ''{'' # tw @ ''}'') @ post)"
      unfolding tw_def by (intro search_hit) simp_all
    then obtain post where m: "m = CHR ''{'' # tw @ ''}''" and p: "c # cs = m @ post"
      using Cons.prems by auto
    have "CHR ''}'' \<notin> set tw" unfolding tw_def by (auto dest: set_takeWhileD)
    then have "c # cs = [] @ m @ post \<and> m = CHR ''{'' # tw @ ''}'' \<and> tw \<noteq> [] \<and>
        CHR ''}'' \<notin> set tw"
      using True m p by simp
    then show ?thesis by blast
  next
    case False
    then have "re_search False JSON_PATTERN (c # cs) = re_search False JSON_PATTERN cs"
      unfolding tw_def by (intro search_miss) blast
    then have "re_search False JSON_PATTERN cs = Some m" using Cons.prems by simp
    from Cons.IH [OF this] obtain pre body post where
      "cs = pre @ m @ post" "m = CHR ''{'' # body @ ''}''" "body \<noteq> []" "CHR ''}'' \<notin> set body"
      by blast
    then have "c # cs = (c # pre) @ m @ post \<and> m = CHR ''{'' # body @ ''}'' \<and> body \<noteq> [] \<and>
      CHR ''}'' \<notin> set body" by simp
    then show ?thesis by blast
  qed
qed

lemma search_complete:
  assumes "CHR ''{'' \<notin> set pre" and "body \<noteq> []" and "CHR ''}'' \<notin> set body"
  shows "re_search False JSON_PATTERN (pre @ CHR ''{'' # body @ CHR ''}'' # post)
         = Some (CHR ''{'' # body @ ''}'')"
  using assms(1)
proof (induction pre)
  case Nil
  have all: "\<forall>x\<in>set body. x \<noteq> CHR ''}''" using assms(3) by blast
  have tw: "takeWhile (\<lambda>c. c \<noteq> CHR ''}'') (body @ CHR ''}'' # post) = body"
    using all by (simp add: takeWhile_tail)
  have dw: "dropWhile (\<lambda>c. c \<noteq> CHR ''}'') (body @ CHR ''}'' # post) = CHR ''}'' # post"
    using all by (simp add: dropWhile_append3)
  have "re_search False JSON_PATTERN (CHR ''{'' # body @ CHR ''}'' # post)
      = Some (CHR ''{'' # takeWhile (\<lambda>c. c \<noteq> CHR ''}'') (body @ CHR ''}'' # post) @ ''}'')"
    by (rule search_hit [THEN conjunct1])
       (simp_all only: tw dw assms(2) list.distinct not_False_eq_True)
  then show ?case by (simp only: tw append_Nil)
next
  case (Cons p pre)
  then have "p \<noteq> CHR ''{''" by auto
  then have "re_search False JSON_PATTERN (p # pre @ CHR ''{'' # body @ CHR ''}'' # post)
      = re_search False JSON_PATTERN (pre @ CHR ''{'' # body @ CHR ''}'' # post)"
    by (intro search_miss) blast
  then show ?case using Cons by simp
qed

text \<open>
  Claim C7, as stated, fails: on an output with a nested object the extraction stops at the
  first closing brace. The extracted text is not balanced and is not the first balanced
  substring, so the nested object does not reach the JSON parser intact.
\<close>

theorem json_extraction_counterexample:
  "re_search False JSON_PATTERN nested_output
     = Some ''{\"difficulty\": \"strong\", \"meta\": {\"k\": 1}'' \<and>
   \<not> spec_balanced 0 ''{\"difficulty\": \"strong\", \"meta\": {\"k\": 1}'' \<and>
   spec_first_balanced nested_output
     = Some ''{\"difficulty\": \"strong\", \"meta\": {\"k\": 1}, \"temperature\": 0.4}''"
proof -
  have "CHR ''{'' \<notin> set ''Sure: '' \<and> ''\"difficulty\": \"strong\", \"meta\": {\"k\": 1'' \<noteq> [] \<and>
    CHR ''}'' \<notin> set ''\"difficulty\": \"strong\", \"meta\": {\"k\": 1''" by simp
  then have "re_search False JSON_PATTERN
      (''Sure: '' @ CHR ''{'' # ''\"difficulty\": \"strong\", \"meta\": {\"k\": 1'' @
         CHR ''}'' # '', \"temperature\": 0.4} ok'')
    = Some (CHR ''{'' # ''\"difficulty\": \"strong\", \"meta\": {\"k\": 1'' @ ''}'')"
    by (intro search_complete) simp_all
  then have a: "re_search False JSON_PATTERN nested_output
     = Some ''{\"difficulty\": \"strong\", \"meta\": {\"k\": 1}''"
    by (simp add: nested_output_def)
  have b: "\<not> spec_balanced 0 ''{\"difficulty\": \"strong\", \"meta\": {\"k\": 1}''"
    by simp
  have c: "spec_first_balanced nested_output
     = Some ''{\"difficulty\": \"strong\", \"meta\": {\"k\": 1}, \"temperature\": 0.4}''"
    by (simp add: nested_output_def)
  show ?thesis using a b c by (intro conjI)
qed

text \<open>
  Claim C7, amended. The extraction step selects a substring that starts with an opening
  brace, continues with one or more characters other than a closing brace and ends at the
  first closing brace after them. So an object without an inner closing brace, with no
  opening brace in the prose before it, is extracted intact, whatever follows it.
\<close>

theorem json_extraction_shape:
  "(re_search False JSON_PATTERN s = Some m \<longrightarrow>
      (\<exists>pre body post. s = pre @ m @ post \<and> m = CHR ''{'' # body @ ''}'' \<and> body \<noteq> [] \<and>
         CHR ''}'' \<notin> set body)) \<and>
   (CHR ''{'' \<notin> set before \<and> inner \<noteq> [] \<and> CHR ''}'' \<notin> set inner \<longrightarrow>
      re_search False JSON_PATTERN (before @ CHR ''{'' # inner @ CHR ''}'' # after)
        = Some (CHR ''{'' # inner @ ''}''))"
  using search_sound [of s m] search_complete [of before inner after] by blast

text \<open>A flat object between two pieces of prose is extracted intact.\<close>

theorem json_extraction_shape_witness:
  "CHR ''{'' \<notin> set ''Here: '' \<and> ''\"difficulty\": \"fast\"'' \<noteq> [] \<and>
   CHR ''}'' \<notin> set ''\"difficulty\": \"fast\"'' \<and>
   re_search False JSON_PATTERN (''Here: '' @ CHR ''{'' # ''\"difficulty\": \"fast\"'' @ CHR ''}'' # '' done'')
     = Some (CHR ''{'' # ''\"difficulty\": \"fast\"'' @ ''}'') \<and>
   (\<exists>pre body post.
      ''Here: '' @ CHR ''{'' # ''\"difficulty\": \"fast\"'' @ CHR ''}'' # '' done''
        = pre @ (CHR ''{'' # ''\"difficulty\": \"fast\"'' @ ''}'') @ post \<and>
      CHR ''{'' # ''\"difficulty\": \"fast\"'' @ ''}'' = CHR ''{'' # body @ ''}'' \<and> body \<noteq> [] \<and>
      CHR ''}'' \<notin> set body)"
proof -
  define doc where "doc = ''Here: '' @ CHR ''{'' # ''\"difficulty\": \"fast\"'' @ CHR ''}'' # '' done''"
  define obj where "obj = CHR ''{'' # ''\"difficulty\": \"fast\"'' @ ''}''"
  have h: "CHR ''{'' \<notin> set ''Here: '' \<and> ''\"difficulty\": \"fast\"'' \<noteq> [] \<and>
    CHR ''}'' \<notin> set ''\"difficulty\": \"fast\"''" by simp
  have a: "re_search False JSON_PATTERN doc = Some obj"
    unfolding doc_def obj_def
    by (rule json_extraction_shape [THEN conjunct2, THEN mp]) (rule h)
  have b: "\<exists>pre body post. doc = pre @ obj @ post \<and> obj = CHR ''{'' # body @ ''}'' \<and>
      body \<noteq> [] \<and> CHR ''}'' \<notin> set body"
    by (rule json_extraction_shape [THEN conjunct1, THEN mp]) (rule a)
  show ?thesis
    using h a b unfolding doc_def obj_def by (intro conjI) (elim conjE, assumption)+
qed

subsection \<open>Sessions and routing: properties\<close>

lemma update_messages_pop:
  "update_messages tier butlast (update_messages tier (\<lambda>messages. messages @ [m]) st) = st"
  by (simp add: update_messages_def)

lemma update_messages_fields:
  "force_mode (update_messages tier f st) = force_mode st"
  by (simp add: update_messages_def)

lemma dispatch_request_exception: "dispatch tier q (Inl RequestException) st = Continue st"
  by (simp add: dispatch_def update_messages_pop)

lemma smart_router_route_messages:
  assumes "smart_router_route st cls = Inr (d, st')"
  shows "messages_fast st' = messages_fast st \<and> messages_normal st' = messages_normal st \<and>
         messages_strong st' = messages_strong st \<and> fixed_temp st' = fixed_temp st"
  using assms by (auto simp: smart_router_route_def split: if_splits sum.splits)

lemma routing_client_route_messages:
  assumes "routing_client_route st q = (tier, st')"
  shows "messages_fast st' = messages_fast st \<and> messages_normal st' = messages_normal st \<and>
         messages_strong st' = messages_strong st"
  using assms by (auto simp: routing_client_route_def split: if_splits)

lemma smart_router_fixed_temperature:
  assumes "fixed_temp st = Some t" and "smart_router_route st cls = Inr (d, st')"
  shows "temperature d = t \<and> fixed_temp st' = Some t"
  using assms by (auto simp: smart_router_route_def split: if_splits sum.splits)

lemma lower_Strong: "lower ''Strong'' = ''strong''"
  by code_simp

text \<open>
  Claim C4 at the fixed temperature 0.0. In \<^verbatim>\<open>web_ui.respond\<close> the test
  \<^verbatim>\<open>fixed_temp if fixed_temp else ...\<close> takes 0.0 for "not set": with a forced tier the
  decision gets 0.7, in automatic mode it keeps the classifier's temperature. The terminal
  client tests \<^verbatim>\<open>fixed_temp is not None\<close> and routes the same setting with temperature 0.
\<close>

theorem fixed_temperature_zero_dropped:
  "web_ui_decision ''Strong'' (Some 0) c
     = \<lparr>difficulty = ''strong'', temperature = 7 / 10, reason = JStr ''Forced: Strong''\<rparr> \<and>
   temperature (web_ui_decision ''Auto'' (Some 0) c) = temperature c \<and>
   smart_router_route (smart_router_start\<lparr>force_mode := Some ''strong'', fixed_temp := Some 0\<rparr>) cls
     = Inr (\<lparr>difficulty = ''strong'', temperature = 0, reason = JStr ''Forced by user''\<rparr>,
            smart_router_start\<lparr>fixed_temp := Some 0\<rparr>)"
  by (simp add: web_ui_decision_def float_truthy_def lower_Strong smart_router_route_def
      str_truthy_def smart_router_start_def)

text \<open>
  Claim C5, as stated, fails in the web interface: the forced tier is the radio selection,
  which \<^verbatim>\<open>respond\<close> receives on every call and never resets. With the strong tier
  selected, two submits in a row are routed to the strong tier although the classifier
  answers fast.
\<close>

theorem forced_tier_counterexample:
  "difficulty quick_decision = ''fast'' \<and>
   submit web_ui_forced quick_decision (Inr ''A'') ''hi''
     = Inr (Some \<lparr>difficulty = ''strong'', temperature = 7 / 10,
                  reason = JStr ''Forced: Strong''\<rparr>,
            web_ui_forced\<lparr>histories := (histories web_ui_forced)
              (''strong'' \<mapsto> [(''user'', ''hi''), (''assistant'', ''A'')])\<rparr>) \<and>
   submit (web_ui_forced\<lparr>histories := (histories web_ui_forced)
              (''strong'' \<mapsto> [(''user'', ''hi''), (''assistant'', ''A'')])\<rparr>)
          quick_decision (Inr ''B'') ''hello''
     = Inr (Some \<lparr>difficulty = ''strong'', temperature = 7 / 10,
                  reason = JStr ''Forced: Strong''\<rparr>,
            web_ui_forced\<lparr>histories := (histories web_ui_forced)
              (''strong'' \<mapsto> [(''user'', ''hi''), (''assistant'', ''A''),
                             (''user'', ''hello''), (''assistant'', ''B'')])\<rparr>)"
proof -
  have s: "strip ''hi'' \<noteq> []" "strip ''hello'' \<noteq> []" by code_simp+
  have d: "web_ui_decision ''Strong'' (Some (7 / 10)) quick_decision
     = \<lparr>difficulty = ''strong'', temperature = 7 / 10, reason = JStr ''Forced: Strong''\<rparr>"
    by (simp add: web_ui_decision_def float_truthy_def lower_Strong)
  have q: "difficulty quick_decision = ''fast''" by (simp add: quick_decision_def)
  have a: "submit web_ui_forced quick_decision (Inr ''A'') ''hi''
     = Inr (Some \<lparr>difficulty = ''strong'', temperature = 7 / 10,
                  reason = JStr ''Forced: Strong''\<rparr>,
            web_ui_forced\<lparr>histories := (histories web_ui_forced)
              (''strong'' \<mapsto> [(''user'', ''hi''), (''assistant'', ''A'')])\<rparr>)"
    by (simp add: submit_def respond_def s d web_ui_forced_def web_ui_start_def Let_def)
  have b: "submit (web_ui_forced\<lparr>histories := (histories web_ui_forced)
              (''strong'' \<mapsto> [(''user'', ''hi''), (''assistant'', ''A'')])\<rparr>)
          quick_decision (Inr ''B'') ''hello''
     = Inr (Some \<lparr>difficulty = ''strong'', temperature = 7 / 10,
                  reason = JStr ''Forced: Strong''\<rparr>,
            web_ui_forced\<lparr>histories := (histories web_ui_forced)
              (''strong'' \<mapsto> [(''user'', ''hi''), (''assistant'', ''A''),
                             (''user'', ''hello''), (''assistant'', ''B'')])\<rparr>)"
    by (simp add: submit_def respond_def s d web_ui_forced_def web_ui_start_def Let_def)
  show ?thesis using q a b by (intro conjI)
qed

text \<open>
  Claim C5, amended. In the terminal clients the forced tier is one-shot: when a forced tier
  is set, the next routing decision takes that tier whatever the classifier would say and
  clears it, and the decision after that takes the classifier's tier (the model-assisted
  classifier in \<^verbatim>\<open>smart_router.py\<close>, \<^verbatim>\<open>classify_complexity\<close> in
  \<^verbatim>\<open>routing_client.py\<close>).
\<close>

theorem forced_tier_one_shot:
  "(str_truthy (force_mode st) \<longrightarrow>
      (\<exists>d st1. smart_router_route st cls = Inr (d, st1) \<and> difficulty d = the (force_mode st) \<and>
         force_mode st1 = None \<and>
         (\<forall>c. \<exists>d2. smart_router_route st1 (Inr c) = Inr (d2, st1) \<and>
            difficulty d2 = difficulty c))) \<and>
   (str_truthy (force_mode rt) \<longrightarrow>
      (\<exists>rt1. routing_client_route rt q = (the (force_mode rt), rt1) \<and> force_mode rt1 = None \<and>
         (\<forall>q2. routing_client_route rt1 q2 = (classify_complexity q2, rt1))))"
proof (intro conjI impI)
  assume f: "str_truthy (force_mode st)"
  define st1 where "st1 = st\<lparr>force_mode := None\<rparr>"
  define d where "d =
    \<lparr>difficulty = the (force_mode st),
     temperature = (case fixed_temp st of None \<Rightarrow> 7 / 10 | Some t \<Rightarrow> t),
     reason = JStr ''Forced by user''\<rparr>"
  have a: "smart_router_route st cls = Inr (d, st1)"
    using f by (simp add: smart_router_route_def d_def st1_def split: option.split)
  have b: "difficulty d = the (force_mode st)"
    by (simp add: d_def)
  have c: "force_mode st1 = None" by (simp add: st1_def)
  have e: "\<exists>d2. smart_router_route st1 (Inr c) = Inr (d2, st1) \<and> difficulty d2 = difficulty c"
    for c
    using c by (simp add: smart_router_route_def str_truthy_def split: option.split)
  show "\<exists>d st1. smart_router_route st cls = Inr (d, st1) \<and> difficulty d = the (force_mode st) \<and>
         force_mode st1 = None \<and>
         (\<forall>c. \<exists>d2. smart_router_route st1 (Inr c) = Inr (d2, st1) \<and>
            difficulty d2 = difficulty c)"
    using a b c e by blast
next
  assume f: "str_truthy (force_mode rt)"
  define rt1 where "rt1 = rt\<lparr>force_mode := None\<rparr>"
  have a: "routing_client_route rt q = (the (force_mode rt), rt1)"
    using f by (simp add: routing_client_route_def rt1_def)
  have c: "force_mode rt1 = None" by (simp add: rt1_def)
  have e: "routing_client_route rt1 q2 = (classify_complexity q2, rt1)" for q2
    using c by (simp add: routing_client_route_def str_truthy_def)
  show "\<exists>rt1. routing_client_route rt q = (the (force_mode rt), rt1) \<and> force_mode rt1 = None \<and>
         (\<forall>q2. routing_client_route rt1 q2 = (classify_complexity q2, rt1))"
    using a c e by blast
qed

text \<open>
  The command \<^verbatim>\<open>/strong\<close> sets a forced tier, and both parts of C5 as amended apply to
  the state it leaves.
\<close>

theorem forced_tier_one_shot_witness:
  "smart_router_command sample_str_to_float ''/strong'' smart_router_start
     = Some (Continue (smart_router_start\<lparr>force_mode := Some ''strong''\<rparr>)) \<and>
   str_truthy (force_mode (smart_router_start\<lparr>force_mode := Some ''strong''\<rparr>)) \<and>
   (\<exists>d st1. smart_router_route (smart_router_start\<lparr>force_mode := Some ''strong''\<rparr>)
               (Inr quick_decision) = Inr (d, st1) \<and>
      difficulty d = ''strong'' \<and> force_mode st1 = None \<and>
      (\<forall>c. \<exists>d2. smart_router_route st1 (Inr c) = Inr (d2, st1) \<and>
         difficulty d2 = difficulty c)) \<and>
   str_truthy (force_mode (routing_client_start\<lparr>force_mode := Some ''strong''\<rparr>)) \<and>
   (\<exists>rt1. routing_client_route (routing_client_start\<lparr>force_mode := Some ''strong''\<rparr>) ''hi''
             = (''strong'', rt1) \<and> force_mode rt1 = None \<and>
      (\<forall>q2. routing_client_route rt1 q2 = (classify_complexity q2, rt1)))"
proof -
  have l: "lower ''/strong'' = ''/strong''" by code_simp
  have c: "smart_router_command sample_str_to_float ''/strong'' smart_router_start
     = Some (Continue (smart_router_start\<lparr>force_mode := Some ''strong''\<rparr>))"
    by (simp add: smart_router_command_def l)
  have t1: "str_truthy (force_mode (smart_router_start\<lparr>force_mode := Some ''strong''\<rparr>))"
    by (simp add: str_truthy_def)
  have t2: "str_truthy (force_mode (routing_client_start\<lparr>force_mode := Some ''strong''\<rparr>))"
    by (simp add: str_truthy_def)
  note r = forced_tier_one_shot
    [of "smart_router_start\<lparr>force_mode := Some ''strong''\<rparr>" "Inr quick_decision"
        "routing_client_start\<lparr>force_mode := Some ''strong''\<rparr>" "''hi''"]
  have a: "\<exists>d st1. smart_router_route (smart_router_start\<lparr>force_mode := Some ''strong''\<rparr>)
               (Inr quick_decision) = Inr (d, st1) \<and>
      difficulty d = ''strong'' \<and> force_mode st1 = None \<and>
      (\<forall>c. \<exists>d2. smart_router_route st1 (Inr c) = Inr (d2, st1) \<and>
         difficulty d2 = difficulty c)"
    using r [THEN conjunct1, THEN mp, OF t1] by simp
  have b: "\<exists>rt1. routing_client_route (routing_client_start\<lparr>force_mode := Some ''strong''\<rparr>) ''hi''
             = (''strong'', rt1) \<and> force_mode rt1 = None \<and>
      (\<forall>q2. routing_client_route rt1 q2 = (classify_complexity q2, rt1))"
    using r [THEN conjunct2, THEN mp, OF t2] by simp
  show ?thesis using c t1 a t2 b by (intro conjI)
qed

lemma lower_hello: "lower ''hello'' = ''hello''"
  by code_simp

lemma hello_is_query:
  "smart_router_command f ''hello'' s = None" "routing_client_command ''hello'' r = None"
  by (simp_all add: smart_router_command_def routing_client_command_def lower_hello)

lemma hello_is_fast: "classify_complexity ''hello'' = ''fast''"
  by code_simp

text \<open>
  Claim C6 at a chat call that fails with \<^verbatim>\<open>json.JSONDecodeError\<close> (\<^verbatim>\<open>chat\<close> runs
  \<^verbatim>\<open>json.loads\<close> on every line of the stream, so a malformed line raises it). Both terminal
  clients append the user turn, call \<^verbatim>\<open>chat\<close> and pop the turn again only under
  \<^verbatim>\<open>except requests.RequestException\<close>: this error is not one, so it leaves \<^verbatim>\<open>main\<close>
  and the fast tier's history, empty before the turn, holds the unanswered user turn.
\<close>

theorem dispatch_failure_not_rolled_back:
  "messages_fast smart_router_start = [] \<and>
   smart_router_turn sample_str_to_float (Inr quick_decision) (Inl JSONDecodeError) ''hello''
       smart_router_start
     = Raise JSONDecodeError (smart_router_start\<lparr>messages_fast := [(''user'', ''hello'')]\<rparr>) \<and>
   messages_fast routing_client_start = [] \<and>
   routing_client_turn (Inl JSONDecodeError) ''hello'' routing_client_start
     = Raise JSONDecodeError (routing_client_start\<lparr>messages_fast := [(''user'', ''hello'')]\<rparr>)"
  by (simp add: smart_router_turn_def routing_client_turn_def hello_is_query hello_is_fast
      smart_router_route_def routing_client_route_def str_truthy_def smart_router_start_def
      routing_client_start_def quick_decision_def dispatch_def update_messages_def)

text \<open>
  The rollback the code does perform: when the chat call of a routing turn raises
  \<^verbatim>\<open>requests.RequestException\<close>, the user turn appended before the call is popped, the
  dispatch leaves the state as it found it, and after the turn the three histories are what
  they were before the turn began.
\<close>

lemma dispatch_failure_rollback:
  "dispatch tier q (Inl RequestException) st = Continue st \<and>
   (smart_router_command f q s = None \<and> smart_router_route s cls = Inr (d, s1) \<longrightarrow>
      smart_router_turn f cls (Inl RequestException) q s = Continue s1 \<and>
      messages_fast s1 = messages_fast s \<and> messages_normal s1 = messages_normal s \<and>
      messages_strong s1 = messages_strong s) \<and>
   (routing_client_command q r = None \<longrightarrow>
      (\<exists>r1. routing_client_turn (Inl RequestException) q r = Continue r1 \<and>
         messages_fast r1 = messages_fast r \<and> messages_normal r1 = messages_normal r \<and>
         messages_strong r1 = messages_strong r))"
proof -
  have one: "dispatch tier q (Inl RequestException) st = Continue st"
    by (rule dispatch_request_exception)
  have two: "smart_router_turn f cls (Inl RequestException) q s = Continue s1 \<and>
      messages_fast s1 = messages_fast s \<and> messages_normal s1 = messages_normal s \<and>
      messages_strong s1 = messages_strong s"
    if a: "smart_router_command f q s = None \<and> smart_router_route s cls = Inr (d, s1)"
  proof -
    have "smart_router_turn f cls (Inl RequestException) q s = Continue s1"
      using a by (simp add: smart_router_turn_def dispatch_request_exception)
    moreover have "messages_fast s1 = messages_fast s \<and> messages_normal s1 = messages_normal s \<and>
        messages_strong s1 = messages_strong s"
      using a smart_router_route_messages [of s cls d s1] by simp
    ultimately show ?thesis by simp
  qed
  have three: "\<exists>r1. routing_client_turn (Inl RequestException) q r = Continue r1 \<and>
         messages_fast r1 = messages_fast r \<and> messages_normal r1 = messages_normal r \<and>
         messages_strong r1 = messages_strong r"
    if a: "routing_client_command q r = None"
  proof -
    obtain tier' r1 where b: "routing_client_route r q = (tier', r1)"
      by (cases "routing_client_route r q")
    have "routing_client_turn (Inl RequestException) q r = Continue r1"
      using a b by (simp add: routing_client_turn_def dispatch_request_exception)
    moreover have "messages_fast r1 = messages_fast r \<and> messages_normal r1 = messages_normal r \<and>
        messages_strong r1 = messages_strong r"
      using b by (rule routing_client_route_messages)
    ultimately show ?thesis by blast
  qed
  show ?thesis using one two three by blast
qed

text \<open>
  A query on the start states, with the classifier answering and the chat call failing on
  the network, is such a turn.
\<close>

lemma dispatch_failure_rollback_instance:
  "smart_router_command sample_str_to_float ''hello'' smart_router_start = None \<and>
   smart_router_route smart_router_start (Inr quick_decision)
     = Inr (quick_decision, smart_router_start) \<and>
   smart_router_turn sample_str_to_float (Inr quick_decision) (Inl RequestException) ''hello''
       smart_router_start = Continue smart_router_start \<and>
   routing_client_command ''hello'' routing_client_start = None \<and>
   (\<exists>r1. routing_client_turn (Inl RequestException) ''hello'' routing_client_start = Continue r1 \<and>
      messages_fast r1 = messages_fast routing_client_start \<and>
      messages_normal r1 = messages_normal routing_client_start \<and>
      messages_strong r1 = messages_strong routing_client_start)"
proof -
  have a: "smart_router_command sample_str_to_float ''hello'' smart_router_start = None"
    by (rule hello_is_query)
  have b: "smart_router_route smart_router_start (Inr quick_decision)
     = Inr (quick_decision, smart_router_start)"
    by (simp add: smart_router_route_def str_truthy_def smart_router_start_def)
  have c: "routing_client_command ''hello'' routing_client_start = None"
    by (rule hello_is_query)
  note r = dispatch_failure_rollback
    [of tier "''hello''" st sample_str_to_float smart_router_start "Inr quick_decision"
        quick_decision smart_router_start routing_client_start for tier and st :: session]
  have d: "smart_router_turn sample_str_to_float (Inr quick_decision) (Inl RequestException)
       ''hello'' smart_router_start = Continue smart_router_start"
    using r [THEN conjunct2, THEN conjunct1, THEN mp, OF conjI, OF a b] by simp
  have e: "\<exists>r1. routing_client_turn (Inl RequestException) ''hello'' routing_client_start
        = Continue r1 \<and>
      messages_fast r1 = messages_fast routing_client_start \<and>
      messages_normal r1 = messages_normal routing_client_start \<and>
      messages_strong r1 = messages_strong routing_client_start"
    using r [THEN conjunct2, THEN conjunct2, THEN mp, OF c] by simp
  show ?thesis using a b d c e by (intro conjI)
qed

end
